theory Spec2Isabelle
  imports Complex_Main
begin

unbundle bit_operations_syntax

section \<open>Data model\<close>

text \<open>
  A cell of a pandas object column: a missing value (\<open>NaN\<close>), a finite number, a
  string, or one of the two infinities that NumPy's true division can produce.
  Finite floating-point numbers are represented by the rationals they denote; the
  rounding of a quotient to the nearest double is not modelled.
\<close>

datatype cell = NaN | PosInf | NegInf | Num rat | Str string

text \<open>A pandas Series: index labels paired with values, in order.\<close>

type_synonym series = "(string \<times> cell) list"

text \<open>
  A pandas DataFrame: the name of the index, the column labels and the rows, each row
  an index label with one value per column.
\<close>

record 'a frame =
  index_name :: string
  columns :: "string list"
  rows :: "(string \<times> 'a list) list"

text \<open>
  A qiime2 Metadata object: the header of the identifier column, the declared type of
  every column (\<open>metadata.columns\<close>) and the rows that \<open>to_dataframe()\<close> returns.
\<close>

datatype column_type = numeric | categorical

record metadata =
  id_header :: string
  column_properties :: "(string \<times> column_type) list"
  md_rows :: "(string \<times> cell list) list"

text \<open>
  The exceptions of the module, one constructor per \<open>raise\<close> (the Python class is
  given with each), and the exceptions of the library calls it relies on.
\<close>

datatype error =
    ColumnIsIndex string string
    \<comment> \<open>KeyError: the parameter names the index of the metadata (role, column)\<close>
  | ColumnNotFound string string
    \<comment> \<open>KeyError: the column is not in the metadata (role, column)\<close>
  | ColumnTypeMismatch column_type string string
    \<comment> \<open>AssertionError: required type, role, column\<close>
  | MissingReferences "string list"
    \<comment> \<open>KeyError: IDs with a timepoint and no reference\<close>
  | DuplicateTimepoint cell "cell list"
    \<comment> \<open>ValueError: subject and the timepoints of its rows\<close>
  | IncompleteSubjects "cell list"
    \<comment> \<open>ValueError: the subjects listed as incomplete\<close>
  | ReferencesNotInTable "cell list"
    \<comment> \<open>AssertionError: reference IDs that are no row of the feature table\<close>
  | UnknownPedsType
    \<comment> \<open>KeyError: \<open>peds_type\<close> is neither Sample nor Feature\<close>
  | LookupKeyError string
    \<comment> \<open>KeyError of a pandas or dict lookup that the module does not catch\<close>
  | FilterIdsError "string list"
    \<comment> \<open>ValueError of \<open>Metadata.filter_ids\<close>: the offending IDs (none when
        \<open>ids_to_keep\<close> is empty)\<close>
  | AttributeError string
    \<comment> \<open>AttributeError: the attribute that the object does not have\<close>
  | NameError string
    \<comment> \<open>NameError: the name that is bound nowhere\<close>
  | BadReference nat
    \<comment> \<open>no Python exception: a reference that holds no object of the kind read from
        it, which no reference that the program obtains from the store is\<close>

section \<open>The pandas and qiime2 operations the module calls\<close>

definition isna :: "cell \<Rightarrow> bool" where
  "isna c = (c = NaN)"

text \<open>\<open>Index.get_loc\<close> on an index without duplicates: the position of a label.\<close>

fun get_loc :: "'a list \<Rightarrow> 'a \<Rightarrow> nat option" where
  "get_loc [] x = None"
| "get_loc (y # ys) x = (if y = x then Some 0 else map_option Suc (get_loc ys x))"

text \<open>\<open>df[column]\<close>: the column as a Series, \<open>None\<close> for the KeyError.\<close>

definition getitem :: "'a frame \<Rightarrow> string \<Rightarrow> (string \<times> 'a) list option" where
  "getitem df c =
     (case get_loc (columns df) c of
        None \<Rightarrow> None
      | Some j \<Rightarrow> Some (map (\<lambda>(i, cs). (i, cs ! j)) (rows df)))"

text \<open>
  Boolean indexing \<open>xs[bs]\<close>, for a mask \<open>bs\<close> computed from an object with the same
  index as \<open>xs\<close> (so that pandas aligns it position by position).
\<close>

definition boolean_index :: "'a list \<Rightarrow> bool list \<Rightarrow> 'a list" where
  "boolean_index xs bs = map fst (filter snd (zip xs bs))"

definition dropna :: "series \<Rightarrow> series" where
  "dropna s = filter (\<lambda>(i, v). \<not> isna v) s"

text \<open>\<open>unique()\<close>: the distinct values in order of first appearance.\<close>

definition unique :: "'a list \<Rightarrow> 'a list" where
  "unique xs = rev (remdups (rev xs))"

text \<open>
  \<open>Series.is_unique\<close> is \<open>nunique(dropna=False) == len\<close>: two missing values count
  as a repetition, as two equal cells do here.
\<close>

definition is_unique :: "cell list \<Rightarrow> bool" where
  "is_unique vs = (length (unique vs) = length vs)"

text \<open>
  The elementwise comparison \<open>series == value\<close>: a missing value equals nothing, not
  even itself.
\<close>

definition cell_eq :: "cell \<Rightarrow> cell \<Rightarrow> bool" where
  "cell_eq a b = (\<not> isna a \<and> \<not> isna b \<and> a = b)"

text \<open>
  \<open>value_counts()\<close>: the occurrences of every non-missing value, most frequent first.
  Values with the same count are listed here in the order of their first appearance.
\<close>

definition value_counts :: "series \<Rightarrow> (cell \<times> nat) list" where
  "value_counts s =
     (let vs = map snd (dropna s)
      in sort_key (\<lambda>(v, c). - int c) (map (\<lambda>v. (v, count_list vs v)) (unique vs)))"

text \<open>
  pandas does not fix the order in which \<open>value_counts()\<close> lists values of the same
  count: its sort by count is not stable, and older versions start from the order of a
  hash table, which for strings changes from one Python process to the next. In
  \<open>value_counts_by\<close> that order is a choice of the run, a function \<open>ties\<close> applied
  to the counts before they are sorted; \<open>value_counts\<close> is \<open>value_counts_by\<close> for
  the function that changes nothing.
\<close>

type_synonym tie_order = "(cell \<times> nat) list \<Rightarrow> (cell \<times> nat) list"

definition value_counts_by :: "tie_order \<Rightarrow> series \<Rightarrow> (cell \<times> nat) list" where
  "value_counts_by ties s =
     (let vs = map snd (dropna s)
      in sort_key (\<lambda>(v, c). - int c) (ties (map (\<lambda>v. (v, count_list vs v)) (unique vs))))"

text \<open>
  \<open>Series.filter(items=..., axis=0)\<close>: the entries whose label is among the items, in
  the order of the items.
\<close>

definition filter_items :: "series \<Rightarrow> string list \<Rightarrow> series" where
  "filter_items s items =
     concat (map (\<lambda>i. case map_of s i of None \<Rightarrow> [] | Some v \<Rightarrow> [(i, v)]) items)"

text \<open>\<open>DataFrame.dropna(subset=[column])\<close>.\<close>

definition dropna_subset :: "cell frame \<Rightarrow> string \<Rightarrow> cell frame option" where
  "dropna_subset df c =
     (case getitem df c of
        None \<Rightarrow> None
      | Some col \<Rightarrow> Some (df\<lparr>rows := boolean_index (rows df) (map (\<lambda>(i, v). \<not> isna v) col)\<rparr>))"

text \<open>
  \<open>Metadata.filter_ids(ids_to_keep)\<close> of qiime2: it refuses an empty list, repeated
  IDs and IDs that the metadata does not have, and otherwise keeps the rows of the
  listed IDs in the order of the metadata.
\<close>

definition filter_ids :: "metadata \<Rightarrow> string list \<Rightarrow> error + metadata" where
  "filter_ids md ids_to_keep =
     (if ids_to_keep = [] then Inl (FilterIdsError [])
      else if \<not> distinct ids_to_keep
        then Inl (FilterIdsError (filter (\<lambda>i. 1 < count_list ids_to_keep i) (unique ids_to_keep)))
      else if \<not> set ids_to_keep \<subseteq> set (map fst (md_rows md))
        then Inl (FilterIdsError (filter (\<lambda>i. i \<notin> set (map fst (md_rows md))) ids_to_keep))
      else Inr (md\<lparr>md_rows := filter (\<lambda>(i, cs). i \<in> set ids_to_keep) (md_rows md)\<rparr>))"

definition to_dataframe :: "metadata \<Rightarrow> cell frame" where
  "to_dataframe md =
     \<lparr>index_name = id_header md, columns = map fst (column_properties md), rows = md_rows md\<rparr>"

section \<open>Validation and filtering\<close>

definition check_for_time_column :: "cell frame \<Rightarrow> string \<Rightarrow> error + nat" where
  "check_for_time_column metadata time_column =
     (case getitem metadata time_column of
        Some col \<Rightarrow> Inr (length (unique (map snd (dropna col))))
      | None \<Rightarrow>
          if time_column = index_name metadata
          then Inl (ColumnIsIndex ''time'' time_column)
          else Inl (ColumnNotFound ''time'' time_column))"

definition check_reference_column :: "cell frame \<Rightarrow> string \<Rightarrow> error + series" where
  "check_reference_column metadata reference_column =
     (case getitem metadata reference_column of
        Some reference_series \<Rightarrow> Inr reference_series
      | None \<Rightarrow>
          if reference_column = index_name metadata
          then Inl (ColumnIsIndex ''reference'' reference_column)
          else Inl (ColumnNotFound ''reference'' reference_column))"

definition filter_associated_reference ::
  "series \<Rightarrow> cell frame \<Rightarrow> string \<Rightarrow> bool \<Rightarrow> string \<Rightarrow> error + (cell frame \<times> series)" where
  "filter_associated_reference reference_series metadata time_column
       filter_missing_references reference_column =
     (case getitem metadata time_column of
        None \<Rightarrow> Inl (LookupKeyError time_column)
      | Some time_series \<Rightarrow>
          let used_references =
                boolean_index reference_series (map (\<lambda>(i, v). \<not> isna v) time_series)
          in if list_ex (\<lambda>(i, v). isna v) used_references then
               if filter_missing_references then
                 (case dropna_subset metadata reference_column of
                    None \<Rightarrow> Inl (LookupKeyError reference_column)
                  | Some metadata' \<Rightarrow> Inr (metadata', dropna used_references))
               else Inl (MissingReferences
                      (map fst (boolean_index used_references
                                  (map (\<lambda>(i, v). isna v) used_references))))
             else Inr (metadata, used_references))"

definition check_subject_column :: "cell frame \<Rightarrow> string \<Rightarrow> error + series" where
  "check_subject_column metadata subject_column =
     (case getitem metadata subject_column of
        Some subject_series \<Rightarrow> Inr subject_series
      | None \<Rightarrow>
          if subject_column = index_name metadata
          then Inl (ColumnIsIndex ''subject'' subject_column)
          else Inl (ColumnNotFound ''subject'' subject_column))"

text \<open>
  The loop over the subjects stops at the first subject whose rows repeat a
  timepoint; the two column lookups inside it raise an uncaught KeyError.
\<close>

fun check_duplicate_subject_timepoint ::
  "cell list \<Rightarrow> cell frame \<Rightarrow> string \<Rightarrow> string \<Rightarrow> error + unit" where
  "check_duplicate_subject_timepoint [] metadata subject_column time_column = Inr ()"
| "check_duplicate_subject_timepoint (subject # rest) metadata subject_column time_column =
     (case getitem metadata subject_column of
        None \<Rightarrow> Inl (LookupKeyError subject_column)
      | Some col \<Rightarrow>
          let subject_df =
                metadata\<lparr>rows := boolean_index (rows metadata)
                                    (map (\<lambda>(i, v). cell_eq v subject) col)\<rparr>
          in (case getitem subject_df time_column of
                None \<Rightarrow> Inl (LookupKeyError time_column)
              | Some timepoints \<Rightarrow>
                  if \<not> is_unique (map snd timepoints)
                  then Inl (DuplicateTimepoint subject (map snd timepoints))
                  else check_duplicate_subject_timepoint rest metadata subject_column
                         time_column))"

definition check_subjects_in_all_timepoints ::
  "series \<Rightarrow> nat \<Rightarrow> bool \<Rightarrow> cell frame \<Rightarrow> string \<Rightarrow> series
     \<Rightarrow> error + (cell frame \<times> series)" where
  "check_subjects_in_all_timepoints subject_series num_timepoints drop_incomplete_subjects
       metadata subject_column used_references =
     (let subject_occurrence_series = value_counts subject_series
      in if list_ex (\<lambda>(s, c). c < num_timepoints) subject_occurrence_series then
           if drop_incomplete_subjects then
             (let subject_to_keep =
                    map fst (filter (\<lambda>(s, c). c = num_timepoints) subject_occurrence_series)
              in case getitem metadata subject_column of
                   None \<Rightarrow> Inl (LookupKeyError subject_column)
                 | Some col \<Rightarrow>
                     let metadata' =
                           metadata\<lparr>rows := boolean_index (rows metadata)
                                               (map (\<lambda>(i, v). v \<in> set subject_to_keep) col)\<rparr>
                     in Inr (metadata', filter_items used_references (map fst (rows metadata'))))
           else Inl (IncompleteSubjects
                  (map fst (filter (\<lambda>(s, c). c \<noteq> num_timepoints) subject_occurrence_series)))
         else Inr (metadata, used_references))"

definition check_column_type ::
  "(string \<times> column_type) list \<Rightarrow> string \<Rightarrow> string \<Rightarrow> column_type \<Rightarrow> error + unit" where
  "check_column_type column_props parameter_type column column_type =
     (case map_of column_props column of
        None \<Rightarrow> Inl (LookupKeyError column)
      | Some t \<Rightarrow>
          if t = column_type then Inr ()
          else Inl (ColumnTypeMismatch column_type parameter_type column))"

section \<open>PEDS calculation\<close>

text \<open>Sequencing of steps that may raise: the first exception ends the call.\<close>

definition and_then :: "error + 'a \<Rightarrow> ('a \<Rightarrow> error + 'b) \<Rightarrow> error + 'b" where
  "and_then r f = (case r of Inl e \<Rightarrow> Inl e | Inr x \<Rightarrow> f x)"

text \<open>A \<open>for\<close> loop that collects one value per element and stops at the first exception.\<close>

fun for_each :: "('a \<Rightarrow> error + 'b) \<Rightarrow> 'a list \<Rightarrow> error + 'b list" where
  "for_each f [] = Inr []"
| "for_each f (x # xs) =
     and_then (f x) (\<lambda>y. and_then (for_each f xs) (\<lambda>ys. Inr (y # ys)))"

text \<open>A \<open>for\<close> loop that updates a variable and stops at the first exception.\<close>

fun for_update :: "('a \<Rightarrow> 's \<Rightarrow> error + 's) \<Rightarrow> 'a list \<Rightarrow> 's \<Rightarrow> error + 's" where
  "for_update f [] s = Inr s"
| "for_update f (x # xs) s = and_then (f x s) (for_update f xs)"

definition index :: "'a frame \<Rightarrow> string list" where
  "index df = map fst (rows df)"

text \<open>\<open>xs.isin(values)\<close>, elementwise; missing values match missing values.\<close>

definition isin :: "'a list \<Rightarrow> 'a list \<Rightarrow> bool list" where
  "isin xs values = map (\<lambda>x. x \<in> set values) xs"

text \<open>\<open>df.loc[label, column]\<close> on a frame with unique labels; \<open>None\<close> is the KeyError.\<close>

definition loc :: "'a frame \<Rightarrow> string \<Rightarrow> string \<Rightarrow> 'a option" where
  "loc df label c = (case getitem df c of None \<Rightarrow> None | Some col \<Rightarrow> map_of col label)"

text \<open>\<open>table > 0\<close>.\<close>

definition positive :: "rat frame \<Rightarrow> bool frame" where
  "positive t =
     \<lparr>index_name = index_name t, columns = columns t,
      rows = map (\<lambda>(i, vs). (i, map (\<lambda>v. 0 < v) vs)) (rows t)\<rparr>"

text \<open>
  True division of two NumPy integers with the warnings silenced: \<open>0/0\<close> is NaN and a
  non-zero numerator over \<open>0\<close> is an infinity.
\<close>

definition true_divide :: "int \<Rightarrow> int \<Rightarrow> cell" where
  "true_divide n d =
     (if d = 0 then (if n = 0 then NaN else if 0 < n then PosInf else NegInf)
      else Num (of_int n / of_int d))"

text \<open>\<open>np.sum(m, axis=1)\<close> and \<open>np.sum(m, axis=0)\<close> of a matrix with \<open>n\<close> columns.\<close>

definition sum_axis1 :: "int list list \<Rightarrow> int list" where
  "sum_axis1 m = map sum_list m"

definition sum_axis0 :: "nat \<Rightarrow> int list list \<Rightarrow> int list" where
  "sum_axis0 n m = map (\<lambda>j. sum_list (map (\<lambda>r. r ! j) m)) [0..<n]"

text \<open>
  The result table. Its row labels are the positions \<open>0, 1, ...\<close> (a dropped row is
  always the last one), so \<open>peds_df.loc[len(peds_df)] = row\<close> appends the row.
\<close>

record peds_table =
  peds_columns :: "string list"
  peds_rows :: "cell list list"

definition append_row :: "peds_table \<Rightarrow> cell list \<Rightarrow> peds_table" where
  "append_row peds_df r = peds_df\<lparr>peds_rows := peds_rows peds_df @ [r]\<rparr>"

text \<open>\<open>DataFrame.dropna()\<close>: the rows without a missing value.\<close>

definition dropna_rows :: "peds_table \<Rightarrow> peds_table" where
  "dropna_rows peds_df = peds_df\<lparr>peds_rows := filter (\<lambda>r. \<not> list_ex isna r) (peds_rows peds_df)\<rparr>"

definition create_recipient_table :: "series \<Rightarrow> cell frame \<Rightarrow> bool frame \<Rightarrow> bool frame" where
  "create_recipient_table reference_series time_metadata table_df =
     (let subset_reference_series =
            boolean_index reference_series (isin (map fst reference_series) (index time_metadata))
      in table_df\<lparr>rows := boolean_index (rows table_df)
                              (isin (index table_df) (map fst subset_reference_series))\<rparr>)"

text \<open>
  The donor mask: for every recipient row, the row of its donor in \<open>donor_df\<close>, as
  integers. Both lookups of the loop raise a KeyError when they fail.
\<close>

definition create_masking ::
  "cell frame \<Rightarrow> bool frame \<Rightarrow> bool frame \<Rightarrow> string \<Rightarrow> error + int list list" where
  "create_masking time_metadata donor_df recip_df reference_column =
     and_then
       (for_each
          (\<lambda>sample.
             case loc time_metadata sample reference_column of
               None \<Rightarrow> Inl (LookupKeyError sample)
             | Some (Str donor) \<Rightarrow>
                 (case get_loc (index donor_df) donor of
                    None \<Rightarrow> Inl (LookupKeyError donor)
                  | Some k \<Rightarrow> Inr k)
             | Some other \<Rightarrow> Inl (LookupKeyError []))
          (index recip_df))
       (\<lambda>donor_index_masking.
          Inr (map (\<lambda>k. map of_bool (snd (rows donor_df ! k))) donor_index_masking))"

text \<open>\<open>donor_mask & recip_df\<close>, elementwise, with the index of \<open>recip_df\<close>.\<close>

definition mask_recipient :: "int list list \<Rightarrow> bool frame \<Rightarrow> int frame" where
  "mask_recipient donor_mask recip_df =
     \<lparr>index_name = index_name recip_df, columns = columns recip_df,
      rows = map2 (\<lambda>d (i, r). (i, map2 (\<lambda>x b. x AND of_bool b) d r)) donor_mask (rows recip_df)\<rparr>"

definition compute_peds ::
  "peds_table \<Rightarrow> string \<Rightarrow> cell \<Rightarrow> series \<Rightarrow> rat frame \<Rightarrow> cell frame
     \<Rightarrow> string \<Rightarrow> string \<Rightarrow> string \<Rightarrow> error + peds_table" where
  "compute_peds peds_df peds_type peds_time reference_series table0 metadata time_column
       subject_column reference_column =
     (let table = positive table0;
          reference_overlap = isin (map snd reference_series) (map Str (index table))
      in if \<not> list_all id reference_overlap
         then Inl (ReferencesNotInTable
                (unique (map snd (boolean_index reference_series (map Not reference_overlap)))))
         else
           let donor_df =
                 table\<lparr>rows := boolean_index (rows table)
                                   (isin (map Str (index table)) (map snd reference_series))\<rparr>;
               recip_df = create_recipient_table reference_series metadata table
           in and_then (create_masking metadata donor_df recip_df reference_column)
                (\<lambda>donormask.
                   let maskedrecip = mask_recipient donormask recip_df
                   in if peds_type = ''Sample'' then
                        (let num_sum = sum_axis1 (map snd (rows maskedrecip));
                             donor_sum = sum_axis1 donormask
                         in and_then
                              (for_each
                                 (\<lambda>(count, sample).
                                    case (loc metadata sample reference_column,
                                          loc metadata sample subject_column,
                                          loc metadata sample time_column) of
                                      (Some ref, Some subj, Some tp) \<Rightarrow>
                                        Inr [Str sample,
                                             true_divide (num_sum ! count) (donor_sum ! count),
                                             Num (of_int (num_sum ! count)),
                                             Num (of_int (donor_sum ! count)),
                                             ref, subj, tp]
                                    | other \<Rightarrow> Inl (LookupKeyError sample))
                                 (enumerate 0 (index recip_df)))
                              (\<lambda>new_rows. Inr (foldl append_row peds_df new_rows)))
                      else if peds_type = ''Feature'' then
                        (let num_sum = sum_axis0 (length (columns recip_df))
                                         (map snd (rows maskedrecip));
                             donor_sum = sum_axis0 (length (columns donor_df)) donormask
                         in Inr (foldl
                                  (\<lambda>peds_df (count, feature).
                                     dropna_rows
                                       (append_row peds_df
                                          [Str feature,
                                           true_divide (num_sum ! count) (donor_sum ! count),
                                           Num (of_int (num_sum ! count)),
                                           Num (of_int (donor_sum ! count)),
                                           peds_time, Str feature]))
                                  peds_df (enumerate 0 (columns recip_df))))
                      else Inl UnknownPedsType))"

section \<open>Entry points\<close>

definition sample_peds ::
  "rat frame \<Rightarrow> metadata \<Rightarrow> string \<Rightarrow> string \<Rightarrow> string \<Rightarrow> bool \<Rightarrow> bool
     \<Rightarrow> error + peds_table" where
  "sample_peds table metadata0 time_column reference_column subject_column
       filter_missing_references drop_incomplete_subjects =
     (let ids_with_data = index table
      in and_then (filter_ids metadata0 ids_with_data) (\<lambda>metadata1.
         let column_props = column_properties metadata1;
             metadata = to_dataframe metadata1
         in and_then (check_for_time_column metadata time_column) (\<lambda>num_timepoints.
            and_then (check_column_type column_props ''time'' time_column numeric) (\<lambda>_.
            and_then (check_reference_column metadata reference_column) (\<lambda>reference_series.
            and_then (check_column_type column_props ''reference'' reference_column categorical)
              (\<lambda>_.
            and_then (filter_associated_reference reference_series metadata time_column
                        filter_missing_references reference_column)
              (\<lambda>(metadata, used_references).
            and_then (check_subject_column metadata subject_column) (\<lambda>subject_series.
            and_then (check_column_type column_props ''subject'' subject_column categorical)
              (\<lambda>_.
            and_then (check_duplicate_subject_timepoint (map snd subject_series) metadata
                        subject_column time_column) (\<lambda>_.
            and_then (check_subjects_in_all_timepoints subject_series num_timepoints
                        drop_incomplete_subjects metadata subject_column used_references)
              (\<lambda>(metadata, used_references).
            let peds_df = \<lparr>peds_columns =
                             [''id'', ''measure'', ''transfered_donor_features'',
                              ''total_donor_features'', ''donor'', ''subject'', ''group''],
                           peds_rows = []\<rparr>
            in compute_peds peds_df ''Sample'' NaN used_references table metadata time_column
                 subject_column reference_column)))))))))))"

text \<open>
  \<open>DataFrame.groupby(column)\<close> on a numeric column: one group per distinct
  non-missing value, in increasing order, each with its rows in their order.
\<close>

definition groupby :: "cell frame \<Rightarrow> string \<Rightarrow> (cell \<times> cell frame) list option" where
  "groupby df c =
     (case getitem df c of
        None \<Rightarrow> None
      | Some col \<Rightarrow>
          Some (map (\<lambda>k. (Num k,
                           df\<lparr>rows := boolean_index (rows df) (map (\<lambda>(i, v). v = Num k) col)\<rparr>))
                  (sort (remdups (concat (map (\<lambda>(i, v). case v of Num q \<Rightarrow> [q] | _ \<Rightarrow> [])
                                            col))))))"

definition feature_peds ::
  "rat frame \<Rightarrow> metadata \<Rightarrow> string \<Rightarrow> string \<Rightarrow> string \<Rightarrow> bool \<Rightarrow> error + peds_table" where
  "feature_peds table metadata0 time_column reference_column subject_column
       filter_missing_references =
     (let ids_with_data = index table
      in and_then (filter_ids metadata0 ids_with_data) (\<lambda>metadata1.
         let column_props = column_properties metadata1;
             metadata = to_dataframe metadata1
         in and_then (check_for_time_column metadata time_column) (\<lambda>_.
            and_then (check_column_type column_props ''time'' time_column numeric) (\<lambda>_.
            and_then (check_reference_column metadata reference_column) (\<lambda>reference_series.
            and_then (check_column_type column_props ''reference'' reference_column categorical)
              (\<lambda>_.
            and_then (filter_associated_reference reference_series metadata time_column
                        filter_missing_references reference_column)
              (\<lambda>(metadata, used_references).
            and_then (check_subject_column metadata subject_column) (\<lambda>_.
            and_then (check_column_type column_props ''subject'' subject_column categorical)
              (\<lambda>_.
            let peds_df = \<lparr>peds_columns =
                             [''id'', ''measure'', ''recipients with feature'',
                              ''all possible recipients with feature'', ''group'', ''subject''],
                           peds_rows = []\<rparr>
            in case groupby metadata time_column of
                 None \<Rightarrow> Inl (LookupKeyError time_column)
               | Some groups \<Rightarrow>
                   for_update
                     (\<lambda>(time, time_metadata) peds_df.
                        compute_peds peds_df ''Feature'' time used_references table
                          time_metadata time_column subject_column reference_column)
                     groups peds_df)))))))))"

text \<open>
  \<open>peds_bootstrap\<close> binds \<open>metadata_df\<close> to the method \<open>metadata.to_dataframe\<close>
  itself (the method is not called), and its second statement starts by reading the
  attribute \<open>loc\<close> of that value. A method has no such attribute, so the statement
  raises; had it a frame, the statement would go on to read the column \<open>Location\<close> and
  then the name \<open>body_site\<close>, which no statement of the module binds. The statements
  after it (the loop over the replicates and the rank-sum test) are therefore never
  reached, and the function has no \<open>return\<close> statement.
\<close>

datatype pyvalue = BoundMethod string | DataFrame "cell frame"

definition getattr_loc :: "pyvalue \<Rightarrow> error + cell frame" where
  "getattr_loc v = (case v of BoundMethod m \<Rightarrow> Inl (AttributeError ''loc'') | DataFrame df \<Rightarrow> Inr df)"

definition peds_bootstrap ::
  "rat frame \<Rightarrow> metadata \<Rightarrow> string \<Rightarrow> string \<Rightarrow> string \<Rightarrow> bool \<Rightarrow> bool \<Rightarrow> int
     \<Rightarrow> error + rat \<times> rat" where
  "peds_bootstrap table metadata time_column reference_column subject_column
       filter_missing_references drop_incomplete_subjects bootstrap_replicates =
     (let metadata_df = BoundMethod ''to_dataframe''
      in and_then (getattr_loc metadata_df) (\<lambda>indexer.
         case getitem indexer ''Location'' of
           None \<Rightarrow> Inl (LookupKeyError ''Location'')
         | Some location \<Rightarrow> Inl (NameError ''body_site'')))"

section \<open>The entry points over a store of objects\<close>

text \<open>
  Python passes references: the caller's feature table and metadata are objects, the
  names \<open>table\<close>, \<open>metadata\<close> and \<open>peds_df\<close> of the functions hold references to
  objects, and a statement either binds a name to another object or changes an object in
  place. This section gives the same functions over a store, a list of objects addressed
  by position, for the objects that these three names refer to. The pandas and qiime2
  calls that return a frame (\<open>filter_ids\<close>, \<open>to_dataframe\<close>, \<open>dropna\<close>, indexing by a
  mask, \<open>table > 0\<close>, a group of \<open>groupby\<close>, \<open>pd.DataFrame(columns=...)\<close>) put a new
  object into the store; where a function returns the frame it was given, it returns the
  reference it was given; \<open>peds_df.loc[len(peds_df)] = row\<close> overwrites the object that
  \<open>peds_df\<close> refers to. An action returns the store it leaves together with its result or
  its exception. Series, arrays and numbers are plain values.
\<close>

type_synonym addr = nat

datatype obj =
    Table "rat frame"
  | Binary "bool frame"
  | Meta metadata
  | Frame "cell frame"
  | Peds peds_table

type_synonym store = "obj list"

type_synonym 'a action = "store \<Rightarrow> store \<times> (error + 'a)"

text \<open>One action after another; an exception ends the sequence and keeps the store.\<close>

definition seq :: "'a action \<Rightarrow> ('a \<Rightarrow> 'b action) \<Rightarrow> 'b action" where
  "seq m f s = (case m s of (s', Inl e) \<Rightarrow> (s', Inl e) | (s', Inr x) \<Rightarrow> f x s')"

text \<open>A computation that touches no object.\<close>

definition call :: "error + 'a \<Rightarrow> 'a action" where
  "call r s = (s, r)"

text \<open>A new object, at the end of the store.\<close>

definition alloc :: "obj \<Rightarrow> addr action" where
  "alloc v s = (s @ [v], Inr (length s))"

definition fetch :: "addr \<Rightarrow> obj action" where
  "fetch a s = (s, if a < length s then Inr (s ! a) else Inl (BadReference a))"

text \<open>An object replaced in place.\<close>

definition store_at :: "addr \<Rightarrow> obj \<Rightarrow> unit action" where
  "store_at a v s = (s[a := v], Inr ())"

definition fetch_table :: "addr \<Rightarrow> rat frame action" where
  "fetch_table a =
     seq (fetch a) (\<lambda>v. call (case v of Table t \<Rightarrow> Inr t | _ \<Rightarrow> Inl (BadReference a)))"

definition fetch_binary :: "addr \<Rightarrow> bool frame action" where
  "fetch_binary a =
     seq (fetch a) (\<lambda>v. call (case v of Binary t \<Rightarrow> Inr t | _ \<Rightarrow> Inl (BadReference a)))"

definition fetch_meta :: "addr \<Rightarrow> metadata action" where
  "fetch_meta a =
     seq (fetch a) (\<lambda>v. call (case v of Meta m \<Rightarrow> Inr m | _ \<Rightarrow> Inl (BadReference a)))"

definition fetch_frame :: "addr \<Rightarrow> cell frame action" where
  "fetch_frame a =
     seq (fetch a) (\<lambda>v. call (case v of Frame df \<Rightarrow> Inr df | _ \<Rightarrow> Inl (BadReference a)))"

definition fetch_peds :: "addr \<Rightarrow> peds_table action" where
  "fetch_peds a =
     seq (fetch a) (\<lambda>v. call (case v of Peds p \<Rightarrow> Inr p | _ \<Rightarrow> Inl (BadReference a)))"

text \<open>\<open>peds_df.loc[len(peds_df)] = row\<close>: the object itself gets the row.\<close>

definition append_in_place :: "addr \<Rightarrow> cell list \<Rightarrow> unit action" where
  "append_in_place peds_ref row =
     seq (fetch_peds peds_ref) (\<lambda>peds_df. store_at peds_ref (Peds (append_row peds_df row)))"

text \<open>\<open>peds_df.dropna()\<close>: a new object.\<close>

definition dropna_copy :: "addr \<Rightarrow> addr action" where
  "dropna_copy peds_ref = seq (fetch_peds peds_ref) (\<lambda>peds_df. alloc (Peds (dropna_rows peds_df)))"

text \<open>A \<open>for\<close> loop over actions that threads a value, here the current reference.\<close>

fun fold_st :: "('a \<Rightarrow> 'b \<Rightarrow> 'b action) \<Rightarrow> 'a list \<Rightarrow> 'b \<Rightarrow> 'b action" where
  "fold_st f [] b = call (Inr b)"
| "fold_st f (x # xs) b = seq (f x b) (fold_st f xs)"

definition run_filter_associated_reference ::
  "series \<Rightarrow> addr \<Rightarrow> string \<Rightarrow> bool \<Rightarrow> string \<Rightarrow> (addr \<times> series) action" where
  "run_filter_associated_reference reference_series metadata_ref time_column
       filter_missing_references reference_column =
     seq (fetch_frame metadata_ref) (\<lambda>metadata.
     case getitem metadata time_column of
       None \<Rightarrow> call (Inl (LookupKeyError time_column))
     | Some time_series \<Rightarrow>
         let used_references =
               boolean_index reference_series (map (\<lambda>(i, v). \<not> isna v) time_series)
         in if list_ex (\<lambda>(i, v). isna v) used_references then
              if filter_missing_references then
                (case dropna_subset metadata reference_column of
                   None \<Rightarrow> call (Inl (LookupKeyError reference_column))
                 | Some metadata' \<Rightarrow>
                     seq (alloc (Frame metadata')) (\<lambda>metadata_ref'.
                     call (Inr (metadata_ref', dropna used_references))))
              else call (Inl (MissingReferences
                     (map fst (boolean_index used_references
                                 (map (\<lambda>(i, v). isna v) used_references)))))
            else call (Inr (metadata_ref, used_references)))"

definition run_check_subjects_in_all_timepoints ::
  "series \<Rightarrow> nat \<Rightarrow> bool \<Rightarrow> addr \<Rightarrow> string \<Rightarrow> series \<Rightarrow> (addr \<times> series) action" where
  "run_check_subjects_in_all_timepoints subject_series num_timepoints drop_incomplete_subjects
       metadata_ref subject_column used_references =
     (let subject_occurrence_series = value_counts subject_series
      in if list_ex (\<lambda>(s, c). c < num_timepoints) subject_occurrence_series then
           if drop_incomplete_subjects then
             (let subject_to_keep =
                    map fst (filter (\<lambda>(s, c). c = num_timepoints) subject_occurrence_series)
              in seq (fetch_frame metadata_ref) (\<lambda>metadata.
                 case getitem metadata subject_column of
                   None \<Rightarrow> call (Inl (LookupKeyError subject_column))
                 | Some col \<Rightarrow>
                     let metadata' =
                           metadata\<lparr>rows := boolean_index (rows metadata)
                                               (map (\<lambda>(i, v). v \<in> set subject_to_keep) col)\<rparr>
                     in seq (alloc (Frame metadata')) (\<lambda>metadata_ref'.
                        call (Inr (metadata_ref',
                                   filter_items used_references (map fst (rows metadata')))))))
           else call (Inl (IncompleteSubjects
                  (map fst (filter (\<lambda>(s, c). c \<noteq> num_timepoints) subject_occurrence_series))))
         else call (Inr (metadata_ref, used_references)))"

definition run_compute_peds ::
  "addr \<Rightarrow> string \<Rightarrow> cell \<Rightarrow> series \<Rightarrow> addr \<Rightarrow> addr \<Rightarrow> string \<Rightarrow> string \<Rightarrow> string
     \<Rightarrow> addr action" where
  "run_compute_peds peds_ref peds_type peds_time reference_series table_ref metadata_ref
       time_column subject_column reference_column =
     seq (fetch_table table_ref) (\<lambda>table0.
     seq (alloc (Binary (positive table0))) (\<lambda>table_ref.
     seq (fetch_binary table_ref) (\<lambda>table.
     let reference_overlap = isin (map snd reference_series) (map Str (index table))
     in if \<not> list_all id reference_overlap
        then call (Inl (ReferencesNotInTable
               (unique (map snd (boolean_index reference_series (map Not reference_overlap))))))
        else
          seq (fetch_frame metadata_ref) (\<lambda>metadata.
          let donor_df =
                table\<lparr>rows := boolean_index (rows table)
                                  (isin (map Str (index table)) (map snd reference_series))\<rparr>;
              recip_df = create_recipient_table reference_series metadata table
          in seq (call (create_masking metadata donor_df recip_df reference_column))
               (\<lambda>donormask.
                  let maskedrecip = mask_recipient donormask recip_df
                  in if peds_type = ''Sample'' then
                       (let num_sum = sum_axis1 (map snd (rows maskedrecip));
                            donor_sum = sum_axis1 donormask
                        in fold_st
                             (\<lambda>(count, sample) peds_ref.
                                seq (call
                                  (case (loc metadata sample reference_column,
                                         loc metadata sample subject_column,
                                         loc metadata sample time_column) of
                                     (Some ref, Some subj, Some tp) \<Rightarrow>
                                       Inr [Str sample,
                                            true_divide (num_sum ! count) (donor_sum ! count),
                                            Num (of_int (num_sum ! count)),
                                            Num (of_int (donor_sum ! count)),
                                            ref, subj, tp]
                                   | other \<Rightarrow> Inl (LookupKeyError sample)))
                                  (\<lambda>row.
                                seq (append_in_place peds_ref row) (\<lambda>_.
                                call (Inr peds_ref))))
                             (enumerate 0 (index recip_df)) peds_ref)
                     else if peds_type = ''Feature'' then
                       (let num_sum = sum_axis0 (length (columns recip_df))
                                        (map snd (rows maskedrecip));
                            donor_sum = sum_axis0 (length (columns donor_df)) donormask
                        in fold_st
                             (\<lambda>(count, feature) peds_ref.
                                seq (append_in_place peds_ref
                                       [Str feature,
                                        true_divide (num_sum ! count) (donor_sum ! count),
                                        Num (of_int (num_sum ! count)),
                                        Num (of_int (donor_sum ! count)),
                                        peds_time, Str feature]) (\<lambda>_.
                                dropna_copy peds_ref))
                             (enumerate 0 (columns recip_df)) peds_ref)
                     else call (Inl UnknownPedsType))))))"

definition run_sample_peds ::
  "addr \<Rightarrow> addr \<Rightarrow> string \<Rightarrow> string \<Rightarrow> string \<Rightarrow> bool \<Rightarrow> bool \<Rightarrow> addr action" where
  "run_sample_peds table_ref metadata_ref0 time_column reference_column subject_column
       filter_missing_references drop_incomplete_subjects =
     seq (fetch_table table_ref) (\<lambda>table.
     let ids_with_data = index table
     in seq (fetch_meta metadata_ref0) (\<lambda>metadata0.
        seq (call (filter_ids metadata0 ids_with_data)) (\<lambda>filtered.
        seq (alloc (Meta filtered)) (\<lambda>metadata_ref1.
        seq (fetch_meta metadata_ref1) (\<lambda>metadata1.
        let column_props = column_properties metadata1
        in seq (alloc (Frame (to_dataframe metadata1))) (\<lambda>metadata_ref.
           seq (fetch_frame metadata_ref) (\<lambda>metadata.
           seq (call (check_for_time_column metadata time_column)) (\<lambda>num_timepoints.
           seq (call (check_column_type column_props ''time'' time_column numeric)) (\<lambda>_.
           seq (call (check_reference_column metadata reference_column)) (\<lambda>reference_series.
           seq (call (check_column_type column_props ''reference'' reference_column categorical))
             (\<lambda>_.
           seq (run_filter_associated_reference reference_series metadata_ref time_column
                  filter_missing_references reference_column)
             (\<lambda>(metadata_ref, used_references).
           seq (fetch_frame metadata_ref) (\<lambda>metadata.
           seq (call (check_subject_column metadata subject_column)) (\<lambda>subject_series.
           seq (call (check_column_type column_props ''subject'' subject_column categorical))
             (\<lambda>_.
           seq (call (check_duplicate_subject_timepoint (map snd subject_series) metadata
                        subject_column time_column)) (\<lambda>_.
           seq (run_check_subjects_in_all_timepoints subject_series num_timepoints
                  drop_incomplete_subjects metadata_ref subject_column used_references)
             (\<lambda>(metadata_ref, used_references).
           seq (alloc (Peds \<lparr>peds_columns =
                             [''id'', ''measure'', ''transfered_donor_features'',
                              ''total_donor_features'', ''donor'', ''subject'', ''group''],
                           peds_rows = []\<rparr>)) (\<lambda>peds_ref.
           run_compute_peds peds_ref ''Sample'' NaN used_references table_ref metadata_ref
             time_column subject_column reference_column))))))))))))))))))"

definition run_feature_peds ::
  "addr \<Rightarrow> addr \<Rightarrow> string \<Rightarrow> string \<Rightarrow> string \<Rightarrow> bool \<Rightarrow> addr action" where
  "run_feature_peds table_ref metadata_ref0 time_column reference_column subject_column
       filter_missing_references =
     seq (fetch_table table_ref) (\<lambda>table.
     let ids_with_data = index table
     in seq (fetch_meta metadata_ref0) (\<lambda>metadata0.
        seq (call (filter_ids metadata0 ids_with_data)) (\<lambda>filtered.
        seq (alloc (Meta filtered)) (\<lambda>metadata_ref1.
        seq (fetch_meta metadata_ref1) (\<lambda>metadata1.
        let column_props = column_properties metadata1
        in seq (alloc (Frame (to_dataframe metadata1))) (\<lambda>metadata_ref.
           seq (fetch_frame metadata_ref) (\<lambda>metadata.
           seq (call (check_for_time_column metadata time_column)) (\<lambda>_.
           seq (call (check_column_type column_props ''time'' time_column numeric)) (\<lambda>_.
           seq (call (check_reference_column metadata reference_column)) (\<lambda>reference_series.
           seq (call (check_column_type column_props ''reference'' reference_column categorical))
             (\<lambda>_.
           seq (run_filter_associated_reference reference_series metadata_ref time_column
                  filter_missing_references reference_column)
             (\<lambda>(metadata_ref, used_references).
           seq (fetch_frame metadata_ref) (\<lambda>metadata.
           seq (call (check_subject_column metadata subject_column)) (\<lambda>_.
           seq (call (check_column_type column_props ''subject'' subject_column categorical))
             (\<lambda>_.
           seq (alloc (Peds \<lparr>peds_columns =
                             [''id'', ''measure'', ''recipients with feature'',
                              ''all possible recipients with feature'', ''group'', ''subject''],
                           peds_rows = []\<rparr>)) (\<lambda>peds_ref.
           case groupby metadata time_column of
             None \<Rightarrow> call (Inl (LookupKeyError time_column))
           | Some groups \<Rightarrow>
               fold_st
                 (\<lambda>(time, time_metadata) peds_ref.
                    seq (alloc (Frame time_metadata)) (\<lambda>time_metadata_ref.
                    run_compute_peds peds_ref ''Feature'' time used_references table_ref
                      time_metadata_ref time_column subject_column reference_column))
                 groups peds_ref))))))))))))))))"

text \<open>
  \<open>sample_peds\<close> in a run where \<open>value_counts()\<close> lists equal counts in the order
  \<open>ties\<close>. None of its steps draws from a random generator (the one call of the module
  that does, \<open>Series.sample\<close>, is in \<open>peds_bootstrap\<close>), so this order and the store
  are all that a run can add to the arguments.
\<close>

definition run_check_subjects_in_all_timepoints_by ::
  "tie_order \<Rightarrow> series \<Rightarrow> nat \<Rightarrow> bool \<Rightarrow> addr \<Rightarrow> string \<Rightarrow> series
     \<Rightarrow> (addr \<times> series) action" where
  "run_check_subjects_in_all_timepoints_by ties subject_series num_timepoints
       drop_incomplete_subjects metadata_ref subject_column used_references =
     (let subject_occurrence_series = value_counts_by ties subject_series
      in if list_ex (\<lambda>(s, c). c < num_timepoints) subject_occurrence_series then
           if drop_incomplete_subjects then
             (let subject_to_keep =
                    map fst (filter (\<lambda>(s, c). c = num_timepoints) subject_occurrence_series)
              in seq (fetch_frame metadata_ref) (\<lambda>metadata.
                 case getitem metadata subject_column of
                   None \<Rightarrow> call (Inl (LookupKeyError subject_column))
                 | Some col \<Rightarrow>
                     let metadata' =
                           metadata\<lparr>rows := boolean_index (rows metadata)
                                               (map (\<lambda>(i, v). v \<in> set subject_to_keep) col)\<rparr>
                     in seq (alloc (Frame metadata')) (\<lambda>metadata_ref'.
                        call (Inr (metadata_ref',
                                   filter_items used_references (map fst (rows metadata')))))))
           else call (Inl (IncompleteSubjects
                  (map fst (filter (\<lambda>(s, c). c \<noteq> num_timepoints) subject_occurrence_series))))
         else call (Inr (metadata_ref, used_references)))"

definition run_sample_peds_by ::
  "tie_order \<Rightarrow> addr \<Rightarrow> addr \<Rightarrow> string \<Rightarrow> string \<Rightarrow> string \<Rightarrow> bool \<Rightarrow> bool
     \<Rightarrow> addr action" where
  "run_sample_peds_by ties table_ref metadata_ref0 time_column reference_column subject_column
       filter_missing_references drop_incomplete_subjects =
     seq (fetch_table table_ref) (\<lambda>table.
     let ids_with_data = index table
     in seq (fetch_meta metadata_ref0) (\<lambda>metadata0.
        seq (call (filter_ids metadata0 ids_with_data)) (\<lambda>filtered.
        seq (alloc (Meta filtered)) (\<lambda>metadata_ref1.
        seq (fetch_meta metadata_ref1) (\<lambda>metadata1.
        let column_props = column_properties metadata1
        in seq (alloc (Frame (to_dataframe metadata1))) (\<lambda>metadata_ref.
           seq (fetch_frame metadata_ref) (\<lambda>metadata.
           seq (call (check_for_time_column metadata time_column)) (\<lambda>num_timepoints.
           seq (call (check_column_type column_props ''time'' time_column numeric)) (\<lambda>_.
           seq (call (check_reference_column metadata reference_column)) (\<lambda>reference_series.
           seq (call (check_column_type column_props ''reference'' reference_column categorical))
             (\<lambda>_.
           seq (run_filter_associated_reference reference_series metadata_ref time_column
                  filter_missing_references reference_column)
             (\<lambda>(metadata_ref, used_references).
           seq (fetch_frame metadata_ref) (\<lambda>metadata.
           seq (call (check_subject_column metadata subject_column)) (\<lambda>subject_series.
           seq (call (check_column_type column_props ''subject'' subject_column categorical))
             (\<lambda>_.
           seq (call (check_duplicate_subject_timepoint (map snd subject_series) metadata
                        subject_column time_column)) (\<lambda>_.
           seq (run_check_subjects_in_all_timepoints_by ties subject_series num_timepoints
                  drop_incomplete_subjects metadata_ref subject_column used_references)
             (\<lambda>(metadata_ref, used_references).
           seq (alloc (Peds \<lparr>peds_columns =
                             [''id'', ''measure'', ''transfered_donor_features'',
                              ''total_donor_features'', ''donor'', ''subject'', ''group''],
                           peds_rows = []\<rparr>)) (\<lambda>peds_ref.
           run_compute_peds peds_ref ''Sample'' NaN used_references table_ref metadata_ref
             time_column subject_column reference_column))))))))))))))))))"

section \<open>Vocabulary of the properties\<close>

text \<open>The value of a row in a named column of its frame.\<close>

definition cell_at :: "'a frame \<Rightarrow> string \<Rightarrow> string \<times> 'a list \<Rightarrow> 'a" where
  "cell_at df c row = snd row ! the (get_loc (columns df) c)"

text \<open>The number of rows of a frame that hold a given non-missing value in a column.\<close>

definition occurrences :: "cell frame \<Rightarrow> string \<Rightarrow> cell \<Rightarrow> nat" where
  "occurrences df c v = length (filter (\<lambda>row. cell_eq (cell_at df c row) v) (rows df))"

text \<open>
  The donor and recipient sub-tables that \<open>compute_peds\<close> builds, with the boolean
  indexing written as a filter.
\<close>

definition donor_table :: "series \<Rightarrow> rat frame \<Rightarrow> bool frame" where
  "donor_table refs t =
     (positive t)\<lparr>rows := filter (\<lambda>row. Str (fst row) \<in> snd ` set refs) (rows (positive t))\<rparr>"

definition recipient_table :: "series \<Rightarrow> cell frame \<Rightarrow> rat frame \<Rightarrow> bool frame" where
  "recipient_table refs md t =
     (positive t)\<lparr>rows := filter (\<lambda>row. fst row \<in> fst ` set refs \<and> fst row \<in> set (index md))
                               (rows (positive t))\<rparr>"

definition overlap :: "bool list \<Rightarrow> bool list \<Rightarrow> int" where
  "overlap drow rrow = sum_list (map2 (\<lambda>x b. x AND of_bool b) (map of_bool drow) rrow)"

definition total :: "bool list \<Rightarrow> int" where
  "total drow = sum_list (map of_bool drow)"

text \<open>
  The positive-abundance feature set of a sample: the feature IDs whose value in the row
  of the sample is positive.
\<close>

definition present :: "rat frame \<Rightarrow> string \<Rightarrow> string set" where
  "present t i =
     (case map_of (rows t) i of
        None \<Rightarrow> {}
      | Some vs \<Rightarrow> set (map fst (filter (\<lambda>(f, v). 0 < v) (zip (columns t) vs))))"

text \<open>Every row of a frame has one value per column.\<close>

definition rectangular :: "'a frame \<Rightarrow> bool" where
  "rectangular t = list_all (\<lambda>row. length (snd row) = length (columns t)) (rows t)"

text \<open>
  The validation and filtering steps of \<open>sample_peds\<close>, up to the metadata and the
  reference series that it hands to \<open>compute_peds\<close>, and the empty result table it
  starts from.
\<close>

definition sample_table :: peds_table where
  "sample_table =
     \<lparr>peds_columns =
        [''id'', ''measure'', ''transfered_donor_features'', ''total_donor_features'',
         ''donor'', ''subject'', ''group''],
      peds_rows = []\<rparr>"

definition sample_resolution ::
  "rat frame \<Rightarrow> metadata \<Rightarrow> string \<Rightarrow> string \<Rightarrow> string \<Rightarrow> bool \<Rightarrow> bool
     \<Rightarrow> error + (cell frame \<times> series)" where
  "sample_resolution table metadata0 time_column reference_column subject_column
       filter_missing_references drop_incomplete_subjects =
     and_then (filter_ids metadata0 (index table)) (\<lambda>metadata1.
     and_then (check_for_time_column (to_dataframe metadata1) time_column) (\<lambda>num_timepoints.
     and_then (check_column_type (column_properties metadata1) ''time'' time_column numeric) (\<lambda>_.
     and_then (check_reference_column (to_dataframe metadata1) reference_column)
       (\<lambda>reference_series.
     and_then (check_column_type (column_properties metadata1) ''reference'' reference_column
                 categorical) (\<lambda>_.
     and_then (filter_associated_reference reference_series (to_dataframe metadata1) time_column
                 filter_missing_references reference_column) (\<lambda>(metadata, used_references).
     and_then (check_subject_column metadata subject_column) (\<lambda>subject_series.
     and_then (check_column_type (column_properties metadata1) ''subject'' subject_column
                 categorical) (\<lambda>_.
     and_then (check_duplicate_subject_timepoint (map snd subject_series) metadata
                 subject_column time_column) (\<lambda>_.
     check_subjects_in_all_timepoints subject_series num_timepoints drop_incomplete_subjects
       metadata subject_column used_references)))))))))"

text \<open>A frame with the columns of another one and some of its rows, in their order.\<close>

definition subframe :: "'a frame \<Rightarrow> 'a frame \<Rightarrow> bool" where
  "subframe df df' \<longleftrightarrow>
     index_name df = index_name df' \<and> columns df = columns df' \<and>
     (\<exists>P. rows df = filter P (rows df'))"

text \<open>
  A measure is valid for a denominator when it is missing exactly if the denominator is
  0, and is otherwise a number between 0 and 1.
\<close>

definition valid_measure :: "cell \<Rightarrow> cell \<Rightarrow> bool" where
  "valid_measure m den \<longleftrightarrow>
     (isna m \<longleftrightarrow> den = Num 0) \<and>
     (case m of NaN \<Rightarrow> True | Num q \<Rightarrow> 0 \<le> q \<and> q \<le> 1 | _ \<Rightarrow> False)"

text \<open>The empty result table that \<open>feature_peds\<close> starts from.\<close>

definition feature_table :: peds_table where
  "feature_table =
     \<lparr>peds_columns =
        [''id'', ''measure'', ''recipients with feature'',
         ''all possible recipients with feature'', ''group'', ''subject''],
      peds_rows = []\<rparr>"

text \<open>
  An action frames the first \<open>n\<close> objects when, run in a store of at least \<open>n\<close> objects,
  it leaves them as they are and removes nothing; \<open>P\<close> holds of the value it returns.
\<close>

definition frames :: "nat \<Rightarrow> 'a action \<Rightarrow> ('a \<Rightarrow> bool) \<Rightarrow> bool" where
  "frames n m P \<longleftrightarrow>
     (\<forall>s. n \<le> length s \<longrightarrow>
        (case m s of (s', r) \<Rightarrow>
           take n s' = take n s \<and> length s \<le> length s' \<and>
           (case r of Inl e \<Rightarrow> True | Inr x \<Rightarrow> P x)))"

text \<open>The store holds an object at a reference.\<close>

definition holds :: "store \<Rightarrow> addr \<Rightarrow> obj \<Rightarrow> bool" where
  "holds s a v \<longleftrightarrow> a < length s \<and> s ! a = v"

text \<open>What the caller gets: the exception, or the result table that the returned reference holds.\<close>

definition outcome :: "store \<times> (error + addr) \<Rightarrow> error + peds_table" where
  "outcome x =
     (case x of
        (s, Inl e) \<Rightarrow> Inl e
      | (s, Inr a) \<Rightarrow>
          if a < length s then (case s ! a of Peds p \<Rightarrow> Inr p | _ \<Rightarrow> Inl (BadReference a))
          else Inl (BadReference a))"

text \<open>An action over the store gives the caller what a function on values returns.\<close>

definition refines :: "store \<Rightarrow> addr action \<Rightarrow> error + peds_table \<Rightarrow> bool" where
  "refines s m r \<longleftrightarrow> outcome (m s) = r"

text \<open>
  Two results are the same but for order when they are equal, or are both the
  incomplete-subject error and list the same subjects.
\<close>

definition same_but_order :: "error + 'a \<Rightarrow> error + 'a \<Rightarrow> bool" where
  "same_but_order r r' \<longleftrightarrow>
     r = r' \<or>
     (\<exists>L L'. r = Inl (IncompleteSubjects L) \<and> r' = Inl (IncompleteSubjects L') \<and> set L = set L')"

text \<open>Two runs of an action that leave the same store, with results the same but for order.\<close>

definition similar :: "store \<times> (error + 'a) \<Rightarrow> store \<times> (error + 'a) \<Rightarrow> bool" where
  "similar p q \<longleftrightarrow> fst p = fst q \<and> same_but_order (snd p) (snd q)"

section \<open>Example inputs\<close>

text \<open>
  A donor row without timepoint and reference, a recipient with a timepoint and no
  reference, and a recipient with both.
\<close>

definition md_missing :: "cell frame" where
  "md_missing =
     \<lparr>index_name = ''id'', columns = [''time'', ''donor''],
      rows = [(''D'', [NaN, NaN]), (''A'', [Num 1, NaN]), (''B'', [Num 1, Str ''D''])]\<rparr>"

text \<open>
  Two timepoints and three subjects: \<open>S1\<close> has three rows (one without a timepoint),
  \<open>S2\<close> has one and \<open>S3\<close> has two.
\<close>

definition md_subjects :: "cell frame" where
  "md_subjects =
     \<lparr>index_name = ''id'', columns = [''time'', ''donor'', ''subject''],
      rows = [(''a1'', [Num 1, Str ''D'', Str ''S1'']),
              (''a2'', [Num 2, Str ''D'', Str ''S1'']),
              (''a3'', [NaN, Str ''D'', Str ''S1'']),
              (''b1'', [Num 1, Str ''D'', Str ''S2'']),
              (''c1'', [Num 1, Str ''D'', Str ''S3'']),
              (''c2'', [Num 2, Str ''D'', Str ''S3''])]\<rparr>"

definition refs_subjects :: series where
  "refs_subjects =
     [(''a1'', Str ''D''), (''a2'', Str ''D''), (''b1'', Str ''D''), (''c1'', Str ''D''),
      (''c2'', Str ''D'')]"

text \<open>
  Subject \<open>S1\<close> has a row at timepoint 1 and a row without a timepoint, subject
  \<open>S3\<close> has a row at each of the two timepoints; \<open>D\<close> is the donor.
\<close>

definition meta_masked :: metadata where
  "meta_masked =
     \<lparr>id_header = ''id'',
      column_properties = [(''time'', numeric), (''donor'', categorical), (''subject'', categorical)],
      md_rows = [(''a1'', [Num 1, Str ''D'', Str ''S1'']),
                 (''a3'', [NaN, Str ''D'', Str ''S1'']),
                 (''c1'', [Num 1, Str ''D'', Str ''S3'']),
                 (''c2'', [Num 2, Str ''D'', Str ''S3'']),
                 (''D'', [NaN, NaN, NaN])]\<rparr>"

definition table_masked :: "rat frame" where
  "table_masked =
     \<lparr>index_name = ''id'', columns = [''f1'', ''f2''],
      rows = [(''a1'', [1, 0]), (''a3'', [1, 1]), (''c1'', [0, 1]), (''c2'', [1, 1]),
              (''D'', [1, 1])]\<rparr>"

text \<open>
  Four features, recipients \<open>A\<close> and \<open>B\<close>, donors \<open>D\<close> and \<open>E\<close>. Donor \<open>E\<close>
  has no feature at all and no donor has feature \<open>f4\<close>.
\<close>

definition table_ex :: "rat frame" where
  "table_ex =
     \<lparr>index_name = ''id'', columns = [''f1'', ''f2'', ''f3'', ''f4''],
      rows = [(''A'', [3, 1, 0, 1]), (''B'', [0, 0, 2, 0]), (''D'', [1, 2, 5, 0]),
              (''E'', [0, 0, 0, 0])]\<rparr>"

definition meta_ex :: metadata where
  "meta_ex =
     \<lparr>id_header = ''id'',
      column_properties = [(''time'', numeric), (''donor'', categorical), (''subject'', categorical)],
      md_rows = [(''A'', [Num 1, Str ''D'', Str ''S1'']),
                 (''B'', [Num 1, Str ''E'', Str ''S2'']),
                 (''D'', [NaN, NaN, NaN]),
                 (''E'', [NaN, NaN, NaN])]\<rparr>"

text \<open>The results of the two entry points for \<open>table_ex\<close> and \<open>meta_ex\<close>.\<close>

definition sample_out_ex :: peds_table where
  "sample_out_ex =
     \<lparr>peds_columns =
        [''id'', ''measure'', ''transfered_donor_features'', ''total_donor_features'',
         ''donor'', ''subject'', ''group''],
      peds_rows =
        [[Str ''A'', Num (2 / 3), Num 2, Num 3, Str ''D'', Str ''S1'', Num 1],
         [Str ''B'', NaN, Num 0, Num 0, Str ''E'', Str ''S2'', Num 1]]\<rparr>"

definition feature_out_ex :: peds_table where
  "feature_out_ex =
     \<lparr>peds_columns =
        [''id'', ''measure'', ''recipients with feature'',
         ''all possible recipients with feature'', ''group'', ''subject''],
      peds_rows =
        [[Str ''f1'', Num 1, Num 1, Num 1, Num 1, Str ''f1''],
         [Str ''f2'', Num 1, Num 1, Num 1, Num 1, Str ''f2''],
         [Str ''f3'', Num 0, Num 0, Num 1, Num 1, Str ''f3'']]\<rparr>"

text \<open>
  The metadata \<open>meta_ex\<close> with two more rows, for samples \<open>Z\<close> and \<open>Y\<close> that the
  table \<open>table_ex\<close> does not have: \<open>Z\<close> has a timepoint of its own and no reference,
  and the reference of \<open>Y\<close> is no row of the table.
\<close>

definition meta_extra :: metadata where
  "meta_extra =
     \<lparr>id_header = ''id'',
      column_properties = [(''time'', numeric), (''donor'', categorical), (''subject'', categorical)],
      md_rows = [(''Z'', [Num 7, NaN, Str ''S1'']),
                 (''A'', [Num 1, Str ''D'', Str ''S1'']),
                 (''B'', [Num 1, Str ''E'', Str ''S2'']),
                 (''D'', [NaN, NaN, NaN]),
                 (''Y'', [Num 1, Str ''Q'', Str ''S1'']),
                 (''E'', [NaN, NaN, NaN])]\<rparr>"


section \<open>Basic facts about the library operations\<close>

lemma boolean_index_map: "boolean_index xs (map P xs) = filter P xs"
  unfolding boolean_index_def by (induction xs) auto

lemma boolean_index_map2: "boolean_index (map f xs) (map P xs) = map f (filter P xs)"
  unfolding boolean_index_def by (induction xs) auto

lemma get_loc_Some_iff: "(\<exists>j. get_loc xs x = Some j) \<longleftrightarrow> x \<in> set xs"
  by (induction xs) auto

lemma get_loc_None_iff: "get_loc xs x = None \<longleftrightarrow> x \<notin> set xs"
  by (induction xs) auto

lemma get_loc_nth: "get_loc xs x = Some j \<Longrightarrow> j < length xs \<and> xs ! j = x"
  by (induction xs arbitrary: j) (auto split: if_splits)

lemma getitem_Some:
  "getitem df c = Some s \<Longrightarrow> s = map (\<lambda>row. (fst row, cell_at df c row)) (rows df)"
  by (auto simp: getitem_def cell_at_def split: option.splits)

lemma getitem_None: "getitem df c = None \<longleftrightarrow> c \<notin> set (columns df)"
  using get_loc_Some_iff [of "columns df" c] by (auto simp: getitem_def split: option.splits)

lemma getitem_rows_update:
  "getitem df c = Some s \<Longrightarrow>
     getitem (df\<lparr>rows := rs\<rparr>) c = Some (map (\<lambda>row. (fst row, cell_at df c row)) rs)"
  by (auto simp: getitem_def cell_at_def split: option.splits)

lemma set_unique [simp]: "set (unique xs) = set xs"
  by (simp add: unique_def)

lemma distinct_unique [simp]: "distinct (unique xs)"
  by (simp add: unique_def)

lemma length_unique: "length (unique xs) = card (set xs)"
  by (simp add: unique_def length_remdups_card_conv)

lemma count_list_filter: "count_list xs v = length (filter (\<lambda>x. x = v) xs)"
  by (induction xs) auto

lemma count_list_dropna:
  assumes "getitem df c = Some s"
  shows "count_list (map snd (dropna s)) v = occurrences df c v"
  unfolding getitem_Some [OF assms] occurrences_def dropna_def count_list_filter
  by (simp add: filter_map comp_def cell_eq_def length_filter_conv_card)
     (metis (mono_tags, lifting) Collect_cong)

lemma set_dropna_getitem:
  assumes "getitem df c = Some s"
  shows "set (map snd (dropna s)) = {v. v \<in> cell_at df c ` set (rows df) \<and> \<not> isna v}"
  unfolding getitem_Some [OF assms] dropna_def by (force simp: image_iff)

lemma set_value_counts:
  "set (value_counts s) = (\<lambda>v. (v, count_list (map snd (dropna s)) v)) ` set (map snd (dropna s))"
  by (simp add: value_counts_def Let_def)

lemma value_counts_getitem:
  assumes "getitem df c = Some s"
  shows "set (value_counts s) =
           (\<lambda>v. (v, occurrences df c v)) ` {v. v \<in> cell_at df c ` set (rows df) \<and> \<not> isna v}"
  unfolding set_value_counts set_dropna_getitem [OF assms]
  using count_list_dropna [OF assms] by auto

lemma occurrences_pos:
  "0 < occurrences df c v \<longleftrightarrow> v \<in> cell_at df c ` set (rows df) \<and> \<not> isna v"
  unfolding occurrences_def cell_eq_def by (auto simp: filter_empty_conv image_iff)

section \<open>Missing references\<close>

lemma used_references_eq:
  assumes tc: "getitem md tc = Some time_series"
      and rc: "getitem md rc = Some reference_series"
  shows "boolean_index reference_series (map (\<lambda>(i, v). \<not> isna v) time_series) =
           map (\<lambda>row. (fst row, cell_at md rc row))
             (filter (\<lambda>row. \<not> isna (cell_at md tc row)) (rows md))"
  unfolding getitem_Some [OF tc] getitem_Some [OF rc]
  by (simp add: boolean_index_map2 comp_def case_prod_beta)

lemma filter_associated_reference_raise:
  assumes tc: "getitem md tc = Some time_series"
      and rc: "getitem md rc = Some reference_series"
      and ex: "list_ex (\<lambda>row. \<not> isna (cell_at md tc row) \<and> isna (cell_at md rc row)) (rows md)"
  shows "filter_associated_reference reference_series md tc False rc =
           Inl (MissingReferences (map fst
             (filter (\<lambda>row. \<not> isna (cell_at md tc row) \<and> isna (cell_at md rc row)) (rows md))))"
proof -
  have "list_ex (\<lambda>(i, v). isna v) (map (\<lambda>row. (fst row, cell_at md rc row))
          (filter (\<lambda>row. \<not> isna (cell_at md tc row)) (rows md)))"
    using ex unfolding list_ex_iff by fastforce
  then show ?thesis
    unfolding filter_associated_reference_def tc option.case Let_def used_references_eq [OF tc rc]
    by (simp add: boolean_index_map2 filter_map comp_def case_prod_beta conj_commute)
qed

lemma filter_associated_reference_drop:
  assumes tc: "getitem md tc = Some time_series"
      and rc: "getitem md rc = Some reference_series"
      and ex: "list_ex (\<lambda>row. \<not> isna (cell_at md tc row) \<and> isna (cell_at md rc row)) (rows md)"
  shows "filter_associated_reference reference_series md tc True rc =
           Inr (md\<lparr>rows := filter (\<lambda>row. \<not> isna (cell_at md rc row)) (rows md)\<rparr>,
                map (\<lambda>row. (fst row, cell_at md rc row))
                  (filter (\<lambda>row. \<not> isna (cell_at md tc row) \<and> \<not> isna (cell_at md rc row))
                     (rows md)))"
proof -
  have "list_ex (\<lambda>(i, v). isna v) (map (\<lambda>row. (fst row, cell_at md rc row))
          (filter (\<lambda>row. \<not> isna (cell_at md tc row)) (rows md)))"
    using ex unfolding list_ex_iff by fastforce
  then show ?thesis
    unfolding filter_associated_reference_def tc option.case Let_def used_references_eq [OF tc rc]
      dropna_subset_def rc
    by (simp add: dropna_def filter_map comp_def case_prod_beta conj_commute
          getitem_Some [OF rc] boolean_index_map)
qed

lemma filter_associated_reference_complete:
  assumes tc: "getitem md tc = Some time_series"
      and rc: "getitem md rc = Some reference_series"
      and ex: "\<not> list_ex (\<lambda>row. \<not> isna (cell_at md tc row) \<and> isna (cell_at md rc row)) (rows md)"
  shows "filter_associated_reference reference_series md tc f rc =
           Inr (md, map (\<lambda>row. (fst row, cell_at md rc row))
                      (filter (\<lambda>row. \<not> isna (cell_at md tc row)) (rows md)))"
proof -
  have "\<not> list_ex (\<lambda>(i, v). isna v) (map (\<lambda>row. (fst row, cell_at md rc row))
          (filter (\<lambda>row. \<not> isna (cell_at md tc row)) (rows md)))"
    using ex unfolding list_ex_iff by fastforce
  then show ?thesis
    unfolding filter_associated_reference_def tc option.case Let_def used_references_eq [OF tc rc]
    by simp
qed

text \<open>
  C4, as the code has it. Let some row of the metadata have a timepoint and no
  reference. With \<open>filter_missing_references\<close> off, the call raises the
  missing-reference error naming exactly the identifiers of the rows with a timepoint
  and no reference. With it on, the call returns: the reference series loses exactly the
  entries of those rows, and the metadata loses every row without a reference, whether
  the row has a timepoint or not.
\<close>

theorem filter_associated_reference_missing:
  assumes "getitem md tc = Some time_series"
      and "getitem md rc = Some reference_series"
      and "list_ex (\<lambda>row. \<not> isna (cell_at md tc row) \<and> isna (cell_at md rc row)) (rows md)"
  shows "filter_associated_reference reference_series md tc False rc =
           Inl (MissingReferences (map fst
             (filter (\<lambda>row. \<not> isna (cell_at md tc row) \<and> isna (cell_at md rc row)) (rows md))))
       \<and> filter_associated_reference reference_series md tc True rc =
           Inr (md\<lparr>rows := filter (\<lambda>row. \<not> isna (cell_at md rc row)) (rows md)\<rparr>,
                map (\<lambda>row. (fst row, cell_at md rc row))
                  (filter (\<lambda>row. \<not> isna (cell_at md tc row) \<and> \<not> isna (cell_at md rc row))
                     (rows md)))"
  using filter_associated_reference_raise [OF assms] filter_associated_reference_drop [OF assms]
  by (rule conjI)

text \<open>
  The theorem at \<open>md_missing\<close>: the error names \<open>A\<close> alone; with the filter on, the
  reference series keeps \<open>B\<close> and the metadata keeps the row of \<open>B\<close> only.
\<close>

theorem filter_associated_reference_missing_witness:
  "filter_associated_reference [(''D'', NaN), (''A'', NaN), (''B'', Str ''D'')] md_missing
       ''time'' False ''donor'' = Inl (MissingReferences [''A''])
   \<and> filter_associated_reference [(''D'', NaN), (''A'', NaN), (''B'', Str ''D'')] md_missing
       ''time'' True ''donor'' =
       Inr (md_missing\<lparr>rows := [(''B'', [Num 1, Str ''D''])]\<rparr>, [(''B'', Str ''D'')])"
proof -
  have tc: "getitem md_missing ''time'' = Some [(''D'', NaN), (''A'', Num 1), (''B'', Num 1)]"
    by (simp add: getitem_def md_missing_def)
  have rc: "getitem md_missing ''donor'' = Some [(''D'', NaN), (''A'', NaN), (''B'', Str ''D'')]"
    by (simp add: getitem_def md_missing_def)
  have ex: "list_ex (\<lambda>row. \<not> isna (cell_at md_missing ''time'' row)
                          \<and> isna (cell_at md_missing ''donor'' row)) (rows md_missing)"
    by (simp add: md_missing_def cell_at_def isna_def)
  show ?thesis
    using filter_associated_reference_missing [OF tc rc ex]
    by (simp add: md_missing_def cell_at_def isna_def)
qed

text \<open>
  C4 as stated fails at \<open>md_missing\<close>: the only row with a timepoint and no reference
  is \<open>A\<close>, yet with the filter on the returned metadata has lost the row of \<open>D\<close> too,
  so it is not the metadata without exactly the rows of those samples.
\<close>

theorem filter_associated_reference_counterexample:
  "filter_associated_reference [(''D'', NaN), (''A'', NaN), (''B'', Str ''D'')] md_missing
       ''time'' True ''donor'' =
       Inr (md_missing\<lparr>rows := [(''B'', [Num 1, Str ''D''])]\<rparr>, [(''B'', Str ''D'')])
   \<and> map fst (filter (\<lambda>row. \<not> isna (cell_at md_missing ''time'' row)
                              \<and> isna (cell_at md_missing ''donor'' row)) (rows md_missing)) = [''A'']
   \<and> md_missing\<lparr>rows := [(''B'', [Num 1, Str ''D''])]\<rparr> \<noteq>
       md_missing\<lparr>rows := filter (\<lambda>row. \<not> (\<not> isna (cell_at md_missing ''time'' row)
                                           \<and> isna (cell_at md_missing ''donor'' row)))
                                  (rows md_missing)\<rparr>"
  by (simp add: filter_associated_reference_def getitem_def md_missing_def boolean_index_def
        dropna_subset_def dropna_def cell_at_def isna_def)

section \<open>Incomplete subjects\<close>

lemma check_subjects_drop:
  assumes sc: "getitem md sc = Some subject_series"
      and ex: "list_ex (\<lambda>row. \<not> isna (cell_at md sc row) \<and> occurrences md sc (cell_at md sc row) < n) (rows md)"
  shows "check_subjects_in_all_timepoints subject_series n True md sc used =
           Inr (md\<lparr>rows := filter (\<lambda>row. occurrences md sc (cell_at md sc row) = n) (rows md)\<rparr>,
                filter_items used
                  (map fst (filter (\<lambda>row. occurrences md sc (cell_at md sc row) = n) (rows md))))"
proof -
  note vc = value_counts_getitem [OF sc]
  have below: "list_ex (\<lambda>(s, c). c < n) (value_counts subject_series)"
    using ex unfolding list_ex_iff vc by (auto simp: image_iff)
  have npos: "0 < n" using ex unfolding list_ex_iff by auto
  have keep: "set (map fst (filter (\<lambda>(s, c). c = n) (value_counts subject_series))) =
                {v. occurrences md sc v = n}"
    using npos unfolding set_map set_filter vc by (force simp: image_iff occurrences_pos)
  show ?thesis
    unfolding check_subjects_in_all_timepoints_def Let_def using below
    apply (simp only: if_True sc option.case keep)
    apply (simp add: getitem_Some [OF sc] boolean_index_map comp_def case_prod_beta)
    done
qed

lemma check_subjects_raise:
  assumes sc: "getitem md sc = Some subject_series"
      and ex: "list_ex (\<lambda>row. \<not> isna (cell_at md sc row) \<and> occurrences md sc (cell_at md sc row) < n) (rows md)"
  shows "\<exists>L. check_subjects_in_all_timepoints subject_series n False md sc used =
               Inl (IncompleteSubjects L) \<and>
             set L = {v. v \<in> cell_at md sc ` set (rows md) \<and> \<not> isna v \<and> occurrences md sc v \<noteq> n}"
proof -
  note vc = value_counts_getitem [OF sc]
  have below: "list_ex (\<lambda>(s, c). c < n) (value_counts subject_series)"
    using ex unfolding list_ex_iff vc by (auto simp: image_iff)
  have "set (map fst (filter (\<lambda>(s, c). c \<noteq> n) (value_counts subject_series))) =
          {v. v \<in> cell_at md sc ` set (rows md) \<and> \<not> isna v \<and> occurrences md sc v \<noteq> n}"
    unfolding set_map set_filter vc by (auto simp: image_iff)
  then show ?thesis
    unfolding check_subjects_in_all_timepoints_def Let_def using below by simp
qed

lemma check_subjects_complete:
  assumes sc: "getitem md sc = Some subject_series"
      and ex: "\<not> list_ex (\<lambda>row. \<not> isna (cell_at md sc row) \<and> occurrences md sc (cell_at md sc row) < n) (rows md)"
  shows "check_subjects_in_all_timepoints subject_series n d md sc used = Inr (md, used)"
proof -
  note vc = value_counts_getitem [OF sc]
  have below: "\<not> list_ex (\<lambda>(s, c). c < n) (value_counts subject_series)"
    using ex unfolding list_ex_iff vc by (auto simp: image_iff)
  then show ?thesis
    unfolding check_subjects_in_all_timepoints_def Let_def by simp
qed

lemma check_for_time_column_card:
  assumes "check_for_time_column md tc = Inr n"
  shows "n = card {v. v \<in> cell_at md tc ` set (rows md) \<and> \<not> isna v}"
proof -
  obtain s where s: "getitem md tc = Some s"
    using assms by (auto simp: check_for_time_column_def split: option.splits if_splits)
  show ?thesis
    using assms s set_dropna_getitem [OF s] by (simp add: check_for_time_column_def length_unique)
qed

text \<open>
  What the check compares with the number of timepoints is the number of rows of a
  subject. Let \<open>n\<close> be the number that \<open>check_for_time_column\<close>
  returns for a frame \<open>md0\<close> (the metadata before any row is filtered), and let some
  subject occur in fewer than \<open>n\<close> rows of the metadata \<open>md\<close> at hand, a row
  without a timepoint counting as an occurrence. Then \<open>n\<close> is the number of distinct
  non-missing time values of \<open>md0\<close>; with \<open>drop_incomplete_subjects\<close> off the call
  raises the incomplete-subject error and lists every subject with fewer than \<open>n\<close>
  rows; with it on the call returns, no row of a subject with fewer than \<open>n\<close> rows is
  left in the metadata, and the reference series is filtered to the rows that are left.
\<close>

lemma check_subjects_fewer_rows:
  assumes nt: "check_for_time_column md0 tc = Inr n"
      and sc: "getitem md sc = Some subject_series"
      and ex: "list_ex (\<lambda>row. \<not> isna (cell_at md sc row)
                              \<and> occurrences md sc (cell_at md sc row) < n) (rows md)"
  shows "n = card {v. v \<in> cell_at md0 tc ` set (rows md0) \<and> \<not> isna v}
       \<and> (\<exists>L. check_subjects_in_all_timepoints subject_series n False md sc used =
                 Inl (IncompleteSubjects L)
               \<and> {v. v \<in> cell_at md sc ` set (rows md) \<and> \<not> isna v \<and> occurrences md sc v < n}
                   \<subseteq> set L)
       \<and> (\<exists>md' used'.
             check_subjects_in_all_timepoints subject_series n True md sc used = Inr (md', used')
           \<and> set (rows md') \<subseteq> set (rows md)
           \<and> (\<forall>row \<in> set (rows md).
                 occurrences md sc (cell_at md sc row) < n \<longrightarrow> row \<notin> set (rows md'))
           \<and> used' = filter_items used (index md'))"
proof -
  obtain L where L: "check_subjects_in_all_timepoints subject_series n False md sc used =
               Inl (IncompleteSubjects L)"
     "set L = {v. v \<in> cell_at md sc ` set (rows md) \<and> \<not> isna v \<and> occurrences md sc v \<noteq> n}"
    using check_subjects_raise [OF sc ex] by blast
  have "{v. v \<in> cell_at md sc ` set (rows md) \<and> \<not> isna v \<and> occurrences md sc v < n} \<subseteq> set L"
    unfolding L(2) by auto
  with L(1) have a: "\<exists>L. check_subjects_in_all_timepoints subject_series n False md sc used =
                 Inl (IncompleteSubjects L)
               \<and> {v. v \<in> cell_at md sc ` set (rows md) \<and> \<not> isna v \<and> occurrences md sc v < n}
                   \<subseteq> set L"
    by blast
  have b: "\<exists>md' used'.
             check_subjects_in_all_timepoints subject_series n True md sc used = Inr (md', used')
           \<and> set (rows md') \<subseteq> set (rows md)
           \<and> (\<forall>row \<in> set (rows md).
                 occurrences md sc (cell_at md sc row) < n \<longrightarrow> row \<notin> set (rows md'))
           \<and> used' = filter_items used (index md')"
    unfolding check_subjects_drop [OF sc ex] by (auto simp: index_def)
  show ?thesis
    using check_for_time_column_card [OF nt] a b by blast
qed

text \<open>
  At \<open>md_subjects\<close>, which has two timepoints, \<open>S2\<close> has one row. The
  error lists \<open>S1\<close> and \<open>S2\<close>; the drop keeps the two rows of \<open>S3\<close>.
\<close>

lemma check_subjects_fewer_rows_ex:
  "check_for_time_column md_subjects ''time'' = Inr 2
   \<and> check_subjects_in_all_timepoints
       [(''a1'', Str ''S1''), (''a2'', Str ''S1''), (''a3'', Str ''S1''), (''b1'', Str ''S2''),
        (''c1'', Str ''S3''), (''c2'', Str ''S3'')]
       2 False md_subjects ''subject'' refs_subjects = Inl (IncompleteSubjects [Str ''S1'', Str ''S2''])
   \<and> check_subjects_in_all_timepoints
       [(''a1'', Str ''S1''), (''a2'', Str ''S1''), (''a3'', Str ''S1''), (''b1'', Str ''S2''),
        (''c1'', Str ''S3''), (''c2'', Str ''S3'')]
       2 True md_subjects ''subject'' refs_subjects =
       Inr (md_subjects\<lparr>rows := [(''c1'', [Num 1, Str ''D'', Str ''S3'']),
                                  (''c2'', [Num 2, Str ''D'', Str ''S3''])]\<rparr>,
            [(''c1'', Str ''D''), (''c2'', Str ''D'')])"
proof -
  have nt: "check_for_time_column md_subjects ''time'' = Inr 2"
    by (simp add: check_for_time_column_def getitem_def md_subjects_def dropna_def isna_def
          unique_def)
  have sc: "getitem md_subjects ''subject'' =
      Some [(''a1'', Str ''S1''), (''a2'', Str ''S1''), (''a3'', Str ''S1''), (''b1'', Str ''S2''),
        (''c1'', Str ''S3''), (''c2'', Str ''S3'')]"
    by (simp add: getitem_def md_subjects_def)
  have ex: "list_ex (\<lambda>row. \<not> isna (cell_at md_subjects ''subject'' row)
               \<and> occurrences md_subjects ''subject'' (cell_at md_subjects ''subject'' row) < 2)
              (rows md_subjects)"
    by (simp add: md_subjects_def cell_at_def isna_def occurrences_def cell_eq_def)
  from check_subjects_fewer_rows [OF nt sc ex, of refs_subjects]
  obtain L md' used' where
    "check_subjects_in_all_timepoints
       [(''a1'', Str ''S1''), (''a2'', Str ''S1''), (''a3'', Str ''S1''), (''b1'', Str ''S2''),
        (''c1'', Str ''S3''), (''c2'', Str ''S3'')]
       2 False md_subjects ''subject'' refs_subjects = Inl (IncompleteSubjects L)"
    "check_subjects_in_all_timepoints
       [(''a1'', Str ''S1''), (''a2'', Str ''S1''), (''a3'', Str ''S1''), (''b1'', Str ''S2''),
        (''c1'', Str ''S3''), (''c2'', Str ''S3'')]
       2 True md_subjects ''subject'' refs_subjects = Inr (md', used')"
    by blast
  moreover have "check_subjects_in_all_timepoints
       [(''a1'', Str ''S1''), (''a2'', Str ''S1''), (''a3'', Str ''S1''), (''b1'', Str ''S2''),
        (''c1'', Str ''S3''), (''c2'', Str ''S3'')]
       2 False md_subjects ''subject'' refs_subjects = Inl (IncompleteSubjects [Str ''S1'', Str ''S2''])"
    by (simp add: check_subjects_in_all_timepoints_def value_counts_def dropna_def isna_def
          unique_def md_subjects_def)
  moreover have "check_subjects_in_all_timepoints
       [(''a1'', Str ''S1''), (''a2'', Str ''S1''), (''a3'', Str ''S1''), (''b1'', Str ''S2''),
        (''c1'', Str ''S3''), (''c2'', Str ''S3'')]
       2 True md_subjects ''subject'' refs_subjects =
       Inr (md_subjects\<lparr>rows := [(''c1'', [Num 1, Str ''D'', Str ''S3'']),
                                  (''c2'', [Num 2, Str ''D'', Str ''S3''])]\<rparr>,
            [(''c1'', Str ''D''), (''c2'', Str ''D'')])"
    by (simp add: check_subjects_in_all_timepoints_def value_counts_def dropna_def isna_def
          unique_def md_subjects_def getitem_def boolean_index_def filter_items_def
          refs_subjects_def Let_def)
  ultimately show ?thesis using nt by simp
qed


text \<open>
  C5 does not hold of the code. At \<open>meta_masked\<close> there are two timepoints and subject
  \<open>S1\<close> appears at timepoint 1 only, so it is incomplete. Its row without a timepoint
  is counted as a second occurrence all the same: the check raises nothing and drops
  nothing, and \<open>sample_peds\<close> returns a result that has the row of \<open>S1\<close>, with
  \<open>drop_incomplete_subjects\<close> off and with it on.
\<close>

theorem check_subjects_untimed_row_counted:
  "check_for_time_column (to_dataframe meta_masked) ''time'' = Inr 2
   \<and> map (cell_at (to_dataframe meta_masked) ''time'')
       (filter (\<lambda>row. cell_at (to_dataframe meta_masked) ''subject'' row = Str ''S1'')
          (rows (to_dataframe meta_masked))) = [Num 1, NaN]
   \<and> check_subjects_in_all_timepoints
       [(''a1'', Str ''S1''), (''a3'', Str ''S1''), (''c1'', Str ''S3''), (''c2'', Str ''S3''),
        (''D'', NaN)]
       2 False (to_dataframe meta_masked) ''subject''
       [(''a1'', Str ''D''), (''c1'', Str ''D''), (''c2'', Str ''D'')] =
       Inr (to_dataframe meta_masked, [(''a1'', Str ''D''), (''c1'', Str ''D''), (''c2'', Str ''D'')])
   \<and> sample_peds table_masked meta_masked ''time'' ''donor'' ''subject'' False False =
       Inr \<lparr>peds_columns =
              [''id'', ''measure'', ''transfered_donor_features'', ''total_donor_features'',
               ''donor'', ''subject'', ''group''],
            peds_rows =
              [[Str ''a1'', Num (1 / 2), Num 1, Num 2, Str ''D'', Str ''S1'', Num 1],
               [Str ''c1'', Num (1 / 2), Num 1, Num 2, Str ''D'', Str ''S3'', Num 1],
               [Str ''c2'', Num 1, Num 2, Num 2, Str ''D'', Str ''S3'', Num 2]]\<rparr>
   \<and> sample_peds table_masked meta_masked ''time'' ''donor'' ''subject'' False True =
       sample_peds table_masked meta_masked ''time'' ''donor'' ''subject'' False False"
  by code_simp

text \<open>
  C10. Let some subject occur in fewer than \<open>n\<close> rows. With
  \<open>drop_incomplete_subjects\<close> on, the rows kept are exactly the rows of the subjects
  that occur in exactly \<open>n\<close> rows (and the reference series is filtered to them), so a
  subject with more than \<open>n\<close> rows loses its rows too. With it off, the error lists
  exactly the subjects whose number of rows differs from \<open>n\<close>, those with more than
  \<open>n\<close> rows among them.
\<close>

theorem check_subjects_exact_count:
  assumes sc: "getitem md sc = Some subject_series"
      and ex: "list_ex (\<lambda>row. \<not> isna (cell_at md sc row)
                              \<and> occurrences md sc (cell_at md sc row) < n) (rows md)"
  shows "check_subjects_in_all_timepoints subject_series n True md sc used =
           Inr (md\<lparr>rows := filter (\<lambda>row. occurrences md sc (cell_at md sc row) = n) (rows md)\<rparr>,
                filter_items used
                  (map fst (filter (\<lambda>row. occurrences md sc (cell_at md sc row) = n) (rows md))))
       \<and> (\<exists>L. check_subjects_in_all_timepoints subject_series n False md sc used =
                 Inl (IncompleteSubjects L)
               \<and> set L = {v. v \<in> cell_at md sc ` set (rows md) \<and> \<not> isna v
                               \<and> occurrences md sc v \<noteq> n}
               \<and> (\<forall>row \<in> set (rows md).
                     n < occurrences md sc (cell_at md sc row) \<longrightarrow> cell_at md sc row \<in> set L))"
proof -
  obtain L where L: "check_subjects_in_all_timepoints subject_series n False md sc used =
               Inl (IncompleteSubjects L)"
     "set L = {v. v \<in> cell_at md sc ` set (rows md) \<and> \<not> isna v \<and> occurrences md sc v \<noteq> n}"
    using check_subjects_raise [OF sc ex] by blast
  have "\<forall>row \<in> set (rows md).
          n < occurrences md sc (cell_at md sc row) \<longrightarrow> cell_at md sc row \<in> set L"
  proof (intro ballI impI)
    fix row assume row: "row \<in> set (rows md)" and gt: "n < occurrences md sc (cell_at md sc row)"
    from gt have "0 < occurrences md sc (cell_at md sc row)" by simp
    then have "\<not> isna (cell_at md sc row)" by (simp add: occurrences_pos)
    with row gt show "cell_at md sc row \<in> set L" unfolding L(2) by auto
  qed
  with L check_subjects_drop [OF sc ex, of used] show ?thesis by blast
qed

text \<open>
  The theorem at \<open>md_subjects\<close> with \<open>n = 2\<close>: \<open>S1\<close> occurs three times, its rows
  are dropped with those of \<open>S2\<close>, and the error lists it.
\<close>

theorem check_subjects_exact_count_witness:
  "check_subjects_in_all_timepoints
       [(''a1'', Str ''S1''), (''a2'', Str ''S1''), (''a3'', Str ''S1''), (''b1'', Str ''S2''),
        (''c1'', Str ''S3''), (''c2'', Str ''S3'')]
       2 True md_subjects ''subject'' refs_subjects =
       Inr (md_subjects\<lparr>rows := [(''c1'', [Num 1, Str ''D'', Str ''S3'']),
                                  (''c2'', [Num 2, Str ''D'', Str ''S3''])]\<rparr>,
            [(''c1'', Str ''D''), (''c2'', Str ''D'')])
   \<and> occurrences md_subjects ''subject'' (Str ''S1'') = 3
   \<and> check_subjects_in_all_timepoints
       [(''a1'', Str ''S1''), (''a2'', Str ''S1''), (''a3'', Str ''S1''), (''b1'', Str ''S2''),
        (''c1'', Str ''S3''), (''c2'', Str ''S3'')]
       2 False md_subjects ''subject'' refs_subjects = Inl (IncompleteSubjects [Str ''S1'', Str ''S2''])"
proof -
  have sc: "getitem md_subjects ''subject'' =
      Some [(''a1'', Str ''S1''), (''a2'', Str ''S1''), (''a3'', Str ''S1''), (''b1'', Str ''S2''),
        (''c1'', Str ''S3''), (''c2'', Str ''S3'')]"
    by (simp add: getitem_def md_subjects_def)
  have ex: "list_ex (\<lambda>row. \<not> isna (cell_at md_subjects ''subject'' row)
               \<and> occurrences md_subjects ''subject'' (cell_at md_subjects ''subject'' row) < 2)
              (rows md_subjects)"
    by (simp add: md_subjects_def cell_at_def isna_def occurrences_def cell_eq_def)
  have a: "check_subjects_in_all_timepoints
       [(''a1'', Str ''S1''), (''a2'', Str ''S1''), (''a3'', Str ''S1''), (''b1'', Str ''S2''),
        (''c1'', Str ''S3''), (''c2'', Str ''S3'')]
       2 True md_subjects ''subject'' refs_subjects =
       Inr (md_subjects\<lparr>rows := [(''c1'', [Num 1, Str ''D'', Str ''S3'']),
                                  (''c2'', [Num 2, Str ''D'', Str ''S3''])]\<rparr>,
            [(''c1'', Str ''D''), (''c2'', Str ''D'')])"
    using check_subjects_exact_count [OF sc ex, of refs_subjects]
    by (simp add: md_subjects_def cell_at_def isna_def occurrences_def cell_eq_def
          filter_items_def refs_subjects_def)
  have b: "occurrences md_subjects ''subject'' (Str ''S1'') = 3"
    by (simp add: md_subjects_def cell_at_def isna_def occurrences_def cell_eq_def)
  have c: "check_subjects_in_all_timepoints
       [(''a1'', Str ''S1''), (''a2'', Str ''S1''), (''a3'', Str ''S1''), (''b1'', Str ''S2''),
        (''c1'', Str ''S3''), (''c2'', Str ''S3'')]
       2 False md_subjects ''subject'' refs_subjects = Inl (IncompleteSubjects [Str ''S1'', Str ''S2''])"
    by (simp add: check_subjects_in_all_timepoints_def value_counts_def dropna_def isna_def
          unique_def md_subjects_def)
  show ?thesis using a b c by simp
qed

section \<open>Loops and sub-tables\<close>

lemma and_then_Inr_iff: "and_then r f = Inr y \<longleftrightarrow> (\<exists>x. r = Inr x \<and> f x = Inr y)"
  by (cases r) (auto simp: and_then_def)

lemma and_then_Inl [simp]: "and_then (Inl e) f = Inl e"
  by (simp add: and_then_def)

lemma and_then_Inr [simp]: "and_then (Inr x) f = f x"
  by (simp add: and_then_def)

lemma for_each_Inr_iff: "for_each f xs = Inr ys \<longleftrightarrow> list_all2 (\<lambda>x y. f x = Inr y) xs ys"
proof (induction xs arbitrary: ys)
  case Nil
  then show ?case by auto
next
  case (Cons x xs)
  show ?case
    by (cases ys) (auto simp: and_then_Inr_iff Cons.IH)
qed

lemma isin_boolean_index:
  "boolean_index xs (isin (map f xs) vs) = filter (\<lambda>x. f x \<in> set vs) xs"
  unfolding isin_def map_map comp_def by (rule boolean_index_map)

lemma index_positive [simp]: "index (positive t) = index t"
  by (simp add: index_def positive_def comp_def case_prod_beta)

lemma columns_positive [simp]: "columns (positive t) = columns t"
  by (simp add: positive_def)

lemma create_recipient_table_eq:
  "create_recipient_table refs md (positive t) = recipient_table refs md t"
proof -
  have "boolean_index refs (isin (map fst refs) (index md)) = filter (\<lambda>x. fst x \<in> set (index md)) refs"
    by (rule isin_boolean_index)
  moreover have "boolean_index (rows (positive t)) (isin (index (positive t)) ids) =
      filter (\<lambda>x. fst x \<in> set ids) (rows (positive t))" for ids
    unfolding index_def by (rule isin_boolean_index)
  ultimately show ?thesis
    unfolding create_recipient_table_def recipient_table_def Let_def
    by (auto intro!: arg_cong2 [where f = "\<lambda>a b. a\<lparr>rows := b\<rparr>"] filter_cong)
qed

lemma donor_df_eq:
  "(positive t)\<lparr>rows := boolean_index (rows (positive t))
        (isin (map Str (index t)) (map snd refs))\<rparr> = donor_table refs t"
proof -
  have "boolean_index (rows (positive t)) (isin (map (\<lambda>row. Str (fst row)) (rows (positive t))) vs) =
      filter (\<lambda>x. Str (fst x) \<in> set vs) (rows (positive t))" for vs
    by (rule isin_boolean_index)
  then show ?thesis
    unfolding donor_table_def index_positive [symmetric] unfolding index_def by (simp add: comp_def)
qed

lemma create_masking_Inr:
  assumes "create_masking md donor_df recip rc = Inr dm"
  shows "list_all2 (\<lambda>sample d. \<exists>donor k. loc md sample rc = Some (Str donor)
            \<and> get_loc (index donor_df) donor = Some k
            \<and> d = map of_bool (snd (rows donor_df ! k))) (index recip) dm"
proof -
  from assms obtain ks where
    ks: "list_all2 (\<lambda>sample k. (case loc md sample rc of
               None \<Rightarrow> Inl (LookupKeyError sample)
             | Some (Str donor) \<Rightarrow>
                 (case get_loc (index donor_df) donor of
                    None \<Rightarrow> Inl (LookupKeyError donor)
                  | Some k \<Rightarrow> Inr k)
             | Some other \<Rightarrow> Inl (LookupKeyError [])) = Inr k) (index recip) ks"
    and dm: "dm = map (\<lambda>k. map of_bool (snd (rows donor_df ! k))) ks"
    unfolding create_masking_def and_then_Inr_iff for_each_Inr_iff by auto
  have "list_all2 (\<lambda>sample k. \<exists>donor. loc md sample rc = Some (Str donor)
            \<and> get_loc (index donor_df) donor = Some k) (index recip) ks"
    using ks by (rule list_all2_mono) (auto split: option.splits cell.splits)
  then show ?thesis
    unfolding dm list_all2_map2 by (rule list_all2_mono) auto
qed

lemma foldl_append_row: "foldl append_row pd new = pd\<lparr>peds_rows := peds_rows pd @ new\<rparr>"
  by (induction new arbitrary: pd) (simp_all add: append_row_def)

lemma compute_peds_unfold:
  "compute_peds peds_df peds_type peds_time refs t md tc sc rc =
     (if \<not> list_all id (isin (map snd refs) (map Str (index t)))
      then Inl (ReferencesNotInTable
             (unique (map snd (boolean_index refs
                (map Not (isin (map snd refs) (map Str (index t))))))))
      else and_then (create_masking md (donor_table refs t) (recipient_table refs md t) rc)
        (\<lambda>donormask.
           let maskedrecip = mask_recipient donormask (recipient_table refs md t)
           in if peds_type = ''Sample'' then
                (let num_sum = sum_axis1 (map snd (rows maskedrecip));
                     donor_sum = sum_axis1 donormask
                 in and_then
                      (for_each
                         (\<lambda>(count, sample).
                            case (loc md sample rc, loc md sample sc, loc md sample tc) of
                              (Some ref, Some subj, Some tp) \<Rightarrow>
                                Inr [Str sample,
                                     true_divide (num_sum ! count) (donor_sum ! count),
                                     Num (of_int (num_sum ! count)),
                                     Num (of_int (donor_sum ! count)),
                                     ref, subj, tp]
                            | other \<Rightarrow> Inl (LookupKeyError sample))
                         (enumerate 0 (index (recipient_table refs md t))))
                      (\<lambda>new_rows. Inr (foldl append_row peds_df new_rows)))
              else if peds_type = ''Feature'' then
                (let num_sum = sum_axis0 (length (columns (recipient_table refs md t)))
                                 (map snd (rows maskedrecip));
                     donor_sum = sum_axis0 (length (columns (donor_table refs t))) donormask
                 in Inr (foldl
                          (\<lambda>peds_df (count, feature).
                             dropna_rows
                               (append_row peds_df
                                  [Str feature,
                                   true_divide (num_sum ! count) (donor_sum ! count),
                                   Num (of_int (num_sum ! count)),
                                   Num (of_int (donor_sum ! count)),
                                   peds_time, Str feature]))
                          peds_df (enumerate 0 (columns (recipient_table refs md t)))))
              else Inl UnknownPedsType))"
  unfolding compute_peds_def Let_def create_recipient_table_eq donor_df_eq index_positive
  by (rule refl)

lemma references_in_table:
  "list_all id (isin (map snd refs) (map Str (index t))) \<longleftrightarrow>
     (\<forall>v \<in> snd ` set refs. v \<in> Str ` set (index t))"
  by (auto simp: isin_def list_all_iff)

lemma rows_mask_recipient_nth:
  assumes "k < length dm" "k < length (rows recip)"
  shows "snd (rows (mask_recipient dm recip) ! k) =
           map2 (\<lambda>x b. x AND of_bool b) (dm ! k) (snd (rows recip ! k))"
  using assms by (simp add: mask_recipient_def case_prod_beta)

lemma length_rows_mask_recipient:
  "length (rows (mask_recipient dm recip)) = min (length dm) (length (rows recip))"
  by (simp add: mask_recipient_def)

lemma compute_peds_Sample:
  assumes ok: "compute_peds pd ''Sample'' ptime refs t md tc sc rc = Inr out"
  shows "\<exists>new. out = pd\<lparr>peds_rows := peds_rows pd @ new\<rparr> \<and>
           list_all2 (\<lambda>row r. \<exists>donor k subj tp.
               loc md (fst row) rc = Some (Str donor) \<and>
               get_loc (index (donor_table refs t)) donor = Some k \<and>
               loc md (fst row) sc = Some subj \<and> loc md (fst row) tc = Some tp \<and>
               r = [Str (fst row),
                    true_divide (overlap (snd (rows (donor_table refs t) ! k)) (snd row))
                                (total (snd (rows (donor_table refs t) ! k))),
                    Num (of_int (overlap (snd (rows (donor_table refs t) ! k)) (snd row))),
                    Num (of_int (total (snd (rows (donor_table refs t) ! k)))),
                    Str donor, subj, tp])
             (rows (recipient_table refs md t)) new"
proof -
  let ?recip = "recipient_table refs md t"
  let ?donor = "donor_table refs t"
  define body where "body = (\<lambda>dm (count, sample).
             (case (loc md sample rc, loc md sample sc, loc md sample tc) of
                (Some ref, Some subj, Some tp) \<Rightarrow>
                   Inr [Str sample,
                        true_divide (sum_axis1 (map snd (rows (mask_recipient dm ?recip))) ! count)
                                    (sum_axis1 dm ! count),
                        Num (of_int (sum_axis1 (map snd (rows (mask_recipient dm ?recip))) ! count)),
                        Num (of_int (sum_axis1 dm ! count)),
                        ref, subj, tp]
              | other \<Rightarrow> Inl (LookupKeyError sample)))"
  have "compute_peds pd ''Sample'' ptime refs t md tc sc rc =
     (if \<not> list_all id (isin (map snd refs) (map Str (index t)))
      then Inl (ReferencesNotInTable
             (unique (map snd (boolean_index refs
                (map Not (isin (map snd refs) (map Str (index t))))))))
      else and_then (create_masking md ?donor ?recip rc)
        (\<lambda>dm. and_then (for_each (body dm) (enumerate 0 (index ?recip)))
                     (\<lambda>new_rows. Inr (foldl append_row pd new_rows))))"
    unfolding compute_peds_unfold body_def Let_def by simp
  with ok obtain dm new where
    dm: "create_masking md ?donor ?recip rc = Inr dm" and
    new: "list_all2 (\<lambda>x r. body dm x = Inr r) (enumerate 0 (index ?recip)) new" and
    out: "out = foldl append_row pd new"
    by (auto simp: and_then_Inr_iff for_each_Inr_iff split: if_splits)
  note mask = create_masking_Inr [OF dm]
  have len_dm: "length dm = length (rows ?recip)"
    using list_all2_lengthD [OF mask] by (simp add: index_def)
  have len_new: "length new = length (rows ?recip)"
    using list_all2_lengthD [OF new] by (simp add: index_def)
  have "list_all2 (\<lambda>row r. \<exists>donor k subj tp.
               loc md (fst row) rc = Some (Str donor) \<and>
               get_loc (index ?donor) donor = Some k \<and>
               loc md (fst row) sc = Some subj \<and> loc md (fst row) tc = Some tp \<and>
               r = [Str (fst row),
                    true_divide (overlap (snd (rows ?donor ! k)) (snd row))
                                (total (snd (rows ?donor ! k))),
                    Num (of_int (overlap (snd (rows ?donor ! k)) (snd row))),
                    Num (of_int (total (snd (rows ?donor ! k)))),
                    Str donor, subj, tp])
             (rows ?recip) new"
  proof (rule list_all2_all_nthI)
    show "length (rows ?recip) = length new" using len_new by simp
  next
    fix n assume n: "n < length (rows ?recip)"
    let ?sample = "fst (rows ?recip ! n)"
    have idx: "index ?recip ! n = ?sample" using n by (simp add: index_def)
    have en: "enumerate 0 (index ?recip) ! n = (n, ?sample)"
      using n idx by (simp add: nth_enumerate_eq index_def)
    from list_all2_nthD [OF mask, of n] n idx obtain donor k where
      d: "loc md ?sample rc = Some (Str donor)" "get_loc (index ?donor) donor = Some k"
         "dm ! n = map of_bool (snd (rows ?donor ! k))"
      by (auto simp: index_def)
    have num: "sum_axis1 (map snd (rows (mask_recipient dm ?recip))) ! n =
                 overlap (snd (rows ?donor ! k)) (snd (rows ?recip ! n))"
      using n len_dm
      by (simp add: sum_axis1_def length_rows_mask_recipient rows_mask_recipient_nth d(3) overlap_def)
    have den: "sum_axis1 dm ! n = total (snd (rows ?donor ! k))"
      using n len_dm by (simp add: sum_axis1_def d(3) total_def)
    from list_all2_nthD [OF new, of n] n en
    have "body dm (n, ?sample) = Inr (new ! n)"
      by (simp add: index_def)
    then have "(case (loc md ?sample rc, loc md ?sample sc, loc md ?sample tc) of
                (Some ref, Some subj, Some tp) \<Rightarrow>
                   Inr [Str ?sample,
                        true_divide (sum_axis1 (map snd (rows (mask_recipient dm ?recip))) ! n)
                                    (sum_axis1 dm ! n),
                        Num (of_int (sum_axis1 (map snd (rows (mask_recipient dm ?recip))) ! n)),
                        Num (of_int (sum_axis1 dm ! n)),
                        ref, subj, tp]
              | other \<Rightarrow> Inl (LookupKeyError ?sample)) = Inr (new ! n)"
      by (simp add: body_def)
    then obtain subj tp where
      "loc md ?sample sc = Some subj" "loc md ?sample tc = Some tp"
      "new ! n = [Str ?sample,
                  true_divide (overlap (snd (rows ?donor ! k)) (snd (rows ?recip ! n)))
                              (total (snd (rows ?donor ! k))),
                  Num (of_int (overlap (snd (rows ?donor ! k)) (snd (rows ?recip ! n)))),
                  Num (of_int (total (snd (rows ?donor ! k)))),
                  Str donor, subj, tp]"
      unfolding num den d(1) by (auto split: option.splits)
    with d show "\<exists>donor k subj tp.
               loc md (fst (rows ?recip ! n)) rc = Some (Str donor) \<and>
               get_loc (index ?donor) donor = Some k \<and>
               loc md (fst (rows ?recip ! n)) sc = Some subj \<and>
               loc md (fst (rows ?recip ! n)) tc = Some tp \<and>
               new ! n = [Str (fst (rows ?recip ! n)),
                    true_divide (overlap (snd (rows ?donor ! k)) (snd (rows ?recip ! n)))
                                (total (snd (rows ?donor ! k))),
                    Num (of_int (overlap (snd (rows ?donor ! k)) (snd (rows ?recip ! n)))),
                    Num (of_int (total (snd (rows ?donor ! k)))),
                    Str donor, subj, tp]"
      by blast
  qed
  then show ?thesis unfolding out foldl_append_row by blast
qed

section \<open>Counting features\<close>

lemma and_of_bool: "(of_bool d :: int) AND of_bool r = of_bool (d \<and> r)"
  by (cases d; cases r) simp_all

lemma overlap_eq: "overlap ds rs = int (length (filter (\<lambda>(d, r). d \<and> r) (zip ds rs)))"
  unfolding overlap_def
proof (induction ds arbitrary: rs)
  case Nil
  then show ?case by simp
next
  case (Cons d ds)
  show ?case
  proof (cases rs)
    case Nil
    then show ?thesis by simp
  next
    case (Cons r rs')
    then show ?thesis using Cons.IH [of rs'] by (simp add: and_of_bool)
  qed
qed

lemma total_eq: "total ds = int (length (filter id ds))"
  unfolding total_def by (induction ds) auto

lemma overlap_le_total: "overlap ds rs \<le> total ds"
proof -
  have "length (filter (\<lambda>(d, r). d \<and> r) (zip ds rs)) \<le> length (filter id ds)"
  proof (induction ds arbitrary: rs)
    case Nil
    then show ?case by simp
  next
    case (Cons d ds)
    show ?case
    proof (cases rs)
      case Nil
      then show ?thesis by simp
    next
      case (Cons r rs')
      then show ?thesis using Cons.IH [of rs'] by auto
    qed
  qed
  then show ?thesis by (simp add: overlap_eq total_eq)
qed

lemma overlap_nonneg: "0 \<le> overlap ds rs"
  by (simp add: overlap_eq)







section \<open>The steps of the entry points\<close>

lemma and_then_assoc: "and_then (and_then r f) g = and_then r (\<lambda>x. and_then (f x) g)"
  by (cases r) simp_all

lemma sample_peds_resolution:
  "sample_peds t md tc rc sc fmr dis =
     and_then (sample_resolution t md tc rc sc fmr dis)
       (\<lambda>(metadata, used). compute_peds sample_table ''Sample'' NaN used t metadata tc sc rc)"
  by (simp add: sample_peds_def sample_resolution_def Let_def sample_table_def and_then_assoc
        split_def)

lemma subframe_refl [simp]: "subframe df df"
  unfolding subframe_def by (auto intro: exI [of _ "\<lambda>_. True"])


lemma subframe_filter [simp]: "subframe (df\<lparr>rows := filter P (rows df)\<rparr>) df"
  unfolding subframe_def by auto










lemma rows_positive_D:
  assumes "row \<in> set (rows (positive t))"
  shows "\<exists>vs. (fst row, vs) \<in> set (rows t) \<and> snd row = map (\<lambda>v. 0 < v) vs"
  using assms by (auto simp: positive_def)

lemma get_loc_rows:
  assumes "get_loc (index df) i = Some k"
  shows "rows df ! k \<in> set (rows df)" "fst (rows df ! k) = i"
  using get_loc_nth [OF assms] by (auto simp: index_def)


lemma finite_present [simp]: "finite (present t i)"
  by (simp add: present_def split: option.splits)


section \<open>Sample-mode PEDS\<close>

lemma sample_resolution_ex:
  "sample_resolution table_ex meta_ex ''time'' ''donor'' ''subject'' False False =
     Inr (to_dataframe meta_ex, [(''A'', Str ''D''), (''B'', Str ''E'')])"
  by code_simp



section \<open>Feature-mode PEDS\<close>

lemma true_divide_valid:
  assumes "0 \<le> n" "n \<le> d"
  shows "valid_measure (true_divide n d) (Num (of_int d))"
  using assms by (auto simp: valid_measure_def true_divide_def isna_def divide_le_eq_1)

lemma for_update_invariant:
  assumes "for_update f xs s = Inr s'" "P s"
      and "\<And>x s s'. x \<in> set xs \<Longrightarrow> P s \<Longrightarrow> f x s = Inr s' \<Longrightarrow> P s'"
  shows "P s'"
  using assms
proof (induction xs arbitrary: s)
  case Nil
  then show ?case by simp
next
  case (Cons x xs)
  from Cons.prems(1) obtain s1 where s1: "f x s = Inr s1" "for_update f xs s1 = Inr s'"
    by (auto simp: and_then_Inr_iff)
  have "P s1" using Cons.prems(3) [of x s s1] Cons.prems(2) s1(1) by simp
  show ?case
    by (rule Cons.IH [OF s1(2) \<open>P s1\<close>]) (use Cons.prems(3) in auto)
qed

lemma foldl_dropna_invariant:
  assumes "\<forall>r \<in> set (peds_rows pd). Q r"
      and "\<And>x. x \<in> set xs \<Longrightarrow> \<not> list_ex isna (row x) \<Longrightarrow> Q (row x)"
  shows "\<forall>r \<in> set (peds_rows (foldl (\<lambda>pd x. dropna_rows (append_row pd (row x))) pd xs)). Q r"
  using assms
proof (induction xs arbitrary: pd)
  case Nil
  then show ?case by simp
next
  case (Cons x xs)
  have "\<forall>r \<in> set (peds_rows (dropna_rows (append_row pd (row x)))). Q r"
    using Cons.prems by (auto simp: dropna_rows_def append_row_def)
  from Cons.IH [OF this] Cons.prems(2) show ?case by simp
qed

lemma sum_axis0_nth:
  "j < n \<Longrightarrow> sum_axis0 n m ! j = sum_list (map (\<lambda>r. r ! j) m)"
  by (simp add: sum_axis0_def)

lemma feature_sums:
  assumes rect: "rectangular t"
      and mask: "create_masking md (donor_table refs t) (recipient_table refs md t) rc = Inr dm"
      and j: "j < length (columns t)"
  shows "0 \<le> sum_axis0 (length (columns t))
               (map snd (rows (mask_recipient dm (recipient_table refs md t)))) ! j"
    and "sum_axis0 (length (columns t))
               (map snd (rows (mask_recipient dm (recipient_table refs md t)))) ! j
           \<le> sum_axis0 (length (columns t)) dm ! j"
proof -
  let ?recip = "recipient_table refs md t"
  let ?donor = "donor_table refs t"
  let ?masked = "map snd (rows (mask_recipient dm ?recip))"
  note m = create_masking_Inr [OF mask]
  have len: "length dm = length (rows ?recip)"
    using list_all2_lengthD [OF m] by (simp add: index_def)
  have lenm: "length ?masked = length dm"
    by (simp add: length_rows_mask_recipient len)
  have pos: "length (snd row) = length (columns t)" if "row \<in> set (rows (positive t))" for row
    using rows_positive_D [OF that] rect by (auto simp: rectangular_def list_all_iff)
  have entry: "0 \<le> ?masked ! k ! j \<and> ?masked ! k ! j \<le> dm ! k ! j" if k: "k < length dm" for k
  proof -
    from list_all2_nthD2 [OF m k] obtain donor k' where
      d: "get_loc (index ?donor) donor = Some k'" "dm ! k = map of_bool (snd (rows ?donor ! k'))"
      by blast
    have "rows ?donor ! k' \<in> set (rows (positive t))"
      using get_loc_rows(1) [OF d(1)] by (simp add: donor_table_def)
    then have ld: "length (snd (rows ?donor ! k')) = length (columns t)" by (rule pos)
    have "rows ?recip ! k \<in> set (rows ?recip)" using k len by simp
    then have "rows ?recip ! k \<in> set (rows (positive t))" by (simp add: recipient_table_def)
    then have lr: "length (snd (rows ?recip ! k)) = length (columns t)" by (rule pos)
    have "?masked ! k = map2 (\<lambda>x b. x AND of_bool b) (dm ! k) (snd (rows ?recip ! k))"
      using k len by (simp add: length_rows_mask_recipient rows_mask_recipient_nth)
    then have "?masked ! k ! j =
        of_bool (snd (rows ?donor ! k') ! j \<and> snd (rows ?recip ! k) ! j)"
      using j ld lr by (simp add: d(2) and_of_bool)
    moreover have "dm ! k ! j = of_bool (snd (rows ?donor ! k') ! j)"
      using j ld by (simp add: d(2))
    ultimately show ?thesis by simp
  qed
  have "sum_list (map (\<lambda>r. r ! j) ?masked) \<le> sum_list (map (\<lambda>r. r ! j) dm)"
    using entry lenm by (intro sum_list_mono2) auto
  then show "sum_axis0 (length (columns t)) ?masked ! j \<le> sum_axis0 (length (columns t)) dm ! j"
    using j by (simp add: sum_axis0_nth)
  have "0 \<le> r ! j" if "r \<in> set ?masked" for r
  proof -
    from that obtain k where "k < length ?masked" "r = ?masked ! k"
      unfolding in_set_conv_nth by blast
    with entry [of k] lenm show ?thesis by simp
  qed
  then have "0 \<le> sum_list (map (\<lambda>r. r ! j) ?masked)"
    by (intro sum_list_nonneg) auto
  then show "0 \<le> sum_axis0 (length (columns t)) ?masked ! j"
    using j by (simp add: sum_axis0_nth)
qed

lemma columns_tables [simp]:
  "columns (recipient_table refs md t) = columns t" "columns (donor_table refs t) = columns t"
  by (simp_all add: recipient_table_def donor_table_def)

lemma compute_peds_Feature:
  assumes ok: "compute_peds pd ''Feature'' ptime refs t md tc sc rc = Inr out"
  shows "\<exists>dm. create_masking md (donor_table refs t) (recipient_table refs md t) rc = Inr dm \<and>
           out = foldl (\<lambda>pd x. dropna_rows (append_row pd
                   [Str (snd x),
                    true_divide
                      (sum_axis0 (length (columns t))
                         (map snd (rows (mask_recipient dm (recipient_table refs md t)))) ! fst x)
                      (sum_axis0 (length (columns t)) dm ! fst x),
                    Num (of_int (sum_axis0 (length (columns t))
                         (map snd (rows (mask_recipient dm (recipient_table refs md t)))) ! fst x)),
                    Num (of_int (sum_axis0 (length (columns t)) dm ! fst x)),
                    ptime, Str (snd x)]))
                 pd (enumerate 0 (columns t))"
  using ok unfolding compute_peds_unfold Let_def
  by (auto simp: and_then_Inr_iff split_def split: if_splits)

lemma compute_peds_Feature_no_nan:
  assumes ok: "compute_peds pd ''Feature'' ptime refs t md tc sc rc = Inr out"
      and pd: "\<forall>r \<in> set (peds_rows pd). length r = 6 \<and> \<not> list_ex isna r"
  shows "\<forall>r \<in> set (peds_rows out). length r = 6 \<and> \<not> list_ex isna r"
proof -
  from compute_peds_Feature [OF ok] obtain dm where
    out: "out = foldl (\<lambda>pd x. dropna_rows (append_row pd
                   [Str (snd x),
                    true_divide
                      (sum_axis0 (length (columns t))
                         (map snd (rows (mask_recipient dm (recipient_table refs md t)))) ! fst x)
                      (sum_axis0 (length (columns t)) dm ! fst x),
                    Num (of_int (sum_axis0 (length (columns t))
                         (map snd (rows (mask_recipient dm (recipient_table refs md t)))) ! fst x)),
                    Num (of_int (sum_axis0 (length (columns t)) dm ! fst x)),
                    ptime, Str (snd x)]))
                 pd (enumerate 0 (columns t))"
    by blast
  show ?thesis
    unfolding out by (rule foldl_dropna_invariant [OF pd]) simp
qed

lemma compute_peds_Feature_valid:
  assumes ok: "compute_peds pd ''Feature'' ptime refs t md tc sc rc = Inr out"
      and rect: "rectangular t"
      and pd: "\<forall>r \<in> set (peds_rows pd). valid_measure (r ! 1) (r ! 3)"
  shows "\<forall>r \<in> set (peds_rows out). valid_measure (r ! 1) (r ! 3)"
proof -
  from compute_peds_Feature [OF ok] obtain dm where
    dm: "create_masking md (donor_table refs t) (recipient_table refs md t) rc = Inr dm" and
    out: "out = foldl (\<lambda>pd x. dropna_rows (append_row pd
                   [Str (snd x),
                    true_divide
                      (sum_axis0 (length (columns t))
                         (map snd (rows (mask_recipient dm (recipient_table refs md t)))) ! fst x)
                      (sum_axis0 (length (columns t)) dm ! fst x),
                    Num (of_int (sum_axis0 (length (columns t))
                         (map snd (rows (mask_recipient dm (recipient_table refs md t)))) ! fst x)),
                    Num (of_int (sum_axis0 (length (columns t)) dm ! fst x)),
                    ptime, Str (snd x)]))
                 pd (enumerate 0 (columns t))"
    by blast
  show ?thesis
    unfolding out
  proof (rule foldl_dropna_invariant [OF pd])
    fix x assume "x \<in> set (enumerate 0 (columns t))"
    then have j: "fst x < length (columns t)"
      by (auto simp: in_set_enumerate_eq)
    from true_divide_valid [OF feature_sums [OF rect dm j]]
    show "valid_measure
            ([Str (snd x),
              true_divide
                (sum_axis0 (length (columns t))
                   (map snd (rows (mask_recipient dm (recipient_table refs md t)))) ! fst x)
                (sum_axis0 (length (columns t)) dm ! fst x),
              Num (of_int (sum_axis0 (length (columns t))
                   (map snd (rows (mask_recipient dm (recipient_table refs md t)))) ! fst x)),
              Num (of_int (sum_axis0 (length (columns t)) dm ! fst x)),
              ptime, Str (snd x)] ! 1)
            ([Str (snd x),
              true_divide
                (sum_axis0 (length (columns t))
                   (map snd (rows (mask_recipient dm (recipient_table refs md t)))) ! fst x)
                (sum_axis0 (length (columns t)) dm ! fst x),
              Num (of_int (sum_axis0 (length (columns t))
                   (map snd (rows (mask_recipient dm (recipient_table refs md t)))) ! fst x)),
              Num (of_int (sum_axis0 (length (columns t)) dm ! fst x)),
              ptime, Str (snd x)] ! 3)"
      by simp
  qed
qed

lemma feature_peds_Inr:
  assumes "feature_peds t md tc rc sc fmr = Inr out"
  shows "\<exists>metadata used groups.
           groupby metadata tc = Some groups \<and>
           for_update (\<lambda>(time, time_metadata) peds_df.
                compute_peds peds_df ''Feature'' time used t time_metadata tc sc rc)
             groups feature_table = Inr out"
  using assms unfolding feature_peds_def Let_def feature_table_def
  by (auto simp: and_then_Inr_iff split: option.splits)

lemma feature_peds_invariant:
  assumes ok: "feature_peds t md tc rc sc fmr = Inr out"
      and step: "\<And>pd ptime refs tm out. compute_peds pd ''Feature'' ptime refs t tm tc sc rc = Inr out
                  \<Longrightarrow> \<forall>r \<in> set (peds_rows pd). Q r \<Longrightarrow> \<forall>r \<in> set (peds_rows out). Q r"
  shows "\<forall>r \<in> set (peds_rows out). Q r"
proof -
  from feature_peds_Inr [OF ok] obtain metadata used groups where
    fu: "for_update (\<lambda>(time, time_metadata) peds_df.
                compute_peds peds_df ''Feature'' time used t time_metadata tc sc rc)
             groups feature_table = Inr out"
    by blast
  show ?thesis
  proof (rule for_update_invariant [OF fu, where P = "\<lambda>pd. \<forall>r \<in> set (peds_rows pd). Q r"])
    show "\<forall>r \<in> set (peds_rows feature_table). Q r" by (simp add: feature_table_def)
  next
    fix x s s'
    assume "\<forall>r \<in> set (peds_rows s). Q r"
       and "(case x of (time, time_metadata) \<Rightarrow> \<lambda>peds_df.
                compute_peds peds_df ''Feature'' time used t time_metadata tc sc rc) s = Inr s'"
    then show "\<forall>r \<in> set (peds_rows s'). Q r"
      using step [of s "fst x" used "snd x" s'] by (simp add: split_def)
  qed
qed

lemma sample_rows_valid:
  assumes cp: "compute_peds pd ''Sample'' ptime refs t md tc sc rc = Inr out"
      and pd: "\<forall>r \<in> set (peds_rows pd). valid_measure (r ! 1) (r ! 3)"
  shows "\<forall>r \<in> set (peds_rows out). valid_measure (r ! 1) (r ! 3)"
proof -
  from compute_peds_Sample [OF cp] obtain new where
    out: "out = pd\<lparr>peds_rows := peds_rows pd @ new\<rparr>" and
    new: "list_all2 (\<lambda>row r. \<exists>donor k subj tp.
               loc md (fst row) rc = Some (Str donor) \<and>
               get_loc (index (donor_table refs t)) donor = Some k \<and>
               loc md (fst row) sc = Some subj \<and> loc md (fst row) tc = Some tp \<and>
               r = [Str (fst row),
                    true_divide (overlap (snd (rows (donor_table refs t) ! k)) (snd row))
                                (total (snd (rows (donor_table refs t) ! k))),
                    Num (of_int (overlap (snd (rows (donor_table refs t) ! k)) (snd row))),
                    Num (of_int (total (snd (rows (donor_table refs t) ! k)))),
                    Str donor, subj, tp])
             (rows (recipient_table refs md t)) new"
    by blast
  have "valid_measure (r ! 1) (r ! 3)" if "r \<in> set new" for r
  proof -
    from that obtain n where n: "n < length new" "r = new ! n"
      by (auto simp: in_set_conv_nth)
    from list_all2_nthD2 [OF new n(1)] n(2) obtain ds rs where
      "r ! 1 = true_divide (overlap ds rs) (total ds)" "r ! 3 = Num (of_int (total ds))"
      by auto
    then show ?thesis
      using true_divide_valid [OF overlap_nonneg overlap_le_total, of ds rs] by simp
  qed
  with pd show ?thesis unfolding out by auto
qed

lemma sample_rows_ids:
  assumes cp: "compute_peds pd ''Sample'' ptime refs t md tc sc rc = Inr out"
  shows "map hd (peds_rows out) =
           map hd (peds_rows pd) @ map Str (index (create_recipient_table refs md (positive t)))"
proof -
  from compute_peds_Sample [OF cp] obtain new where
    out: "out = pd\<lparr>peds_rows := peds_rows pd @ new\<rparr>" and
    new: "list_all2 (\<lambda>row r. \<exists>donor k subj tp.
               loc md (fst row) rc = Some (Str donor) \<and>
               get_loc (index (donor_table refs t)) donor = Some k \<and>
               loc md (fst row) sc = Some subj \<and> loc md (fst row) tc = Some tp \<and>
               r = [Str (fst row),
                    true_divide (overlap (snd (rows (donor_table refs t) ! k)) (snd row))
                                (total (snd (rows (donor_table refs t) ! k))),
                    Num (of_int (overlap (snd (rows (donor_table refs t) ! k)) (snd row))),
                    Num (of_int (total (snd (rows (donor_table refs t) ! k)))),
                    Str donor, subj, tp])
             (rows (recipient_table refs md t)) new"
    by blast
  have "list_all2 (\<lambda>row r. hd r = Str (fst row)) (rows (recipient_table refs md t)) new"
    using new by (rule list_all2_mono) auto
  then have "map hd new = map (\<lambda>row. Str (fst row)) (rows (recipient_table refs md t))"
    by (induction rule: list_all2_induct) auto
  then show ?thesis
    unfolding out create_recipient_table_eq by (simp add: index_def)
qed
lemma sample_peds_ex:
  "sample_peds table_ex meta_ex ''time'' ''donor'' ''subject'' False False = Inr sample_out_ex"
  by code_simp

lemma feature_peds_ex:
  "feature_peds table_ex meta_ex ''time'' ''donor'' ''subject'' False = Inr feature_out_ex"
  by code_simp

section \<open>Range of the measure and missing measures\<close>

text \<open>
  C2. For a feature table with one value per feature in every row, every row of a result
  of \<open>sample_peds\<close> and every row of a result of \<open>feature_peds\<close> holds a measure
  that is valid for the denominator in its fourth column: the measure is NaN exactly when
  the denominator is 0, and otherwise a number in the closed interval from 0 to 1. The
  division \<open>0/0\<close> returns NaN; it raises nothing.
\<close>

theorem peds_measure_range:
  assumes "rectangular t"
  shows "(sample_peds t md tc rc sc fmr dis = Inr sample_out \<longrightarrow>
            (\<forall>r \<in> set (peds_rows sample_out). valid_measure (r ! 1) (r ! 3)))
       \<and> (feature_peds t md tc rc sc fmr = Inr feature_out \<longrightarrow>
            (\<forall>r \<in> set (peds_rows feature_out). valid_measure (r ! 1) (r ! 3)))
       \<and> true_divide 0 0 = NaN"
proof (intro conjI impI)
  assume "sample_peds t md tc rc sc fmr dis = Inr sample_out"
  then obtain metadata used where
    "compute_peds sample_table ''Sample'' NaN used t metadata tc sc rc = Inr sample_out"
    unfolding sample_peds_resolution by (auto simp: and_then_Inr_iff)
  then show "\<forall>r \<in> set (peds_rows sample_out). valid_measure (r ! 1) (r ! 3)"
    by (rule sample_rows_valid) (simp add: sample_table_def)
next
  assume "feature_peds t md tc rc sc fmr = Inr feature_out"
  then show "\<forall>r \<in> set (peds_rows feature_out). valid_measure (r ! 1) (r ! 3)"
    by (rule feature_peds_invariant) (rule compute_peds_Feature_valid [OF _ assms])
next
  show "true_divide 0 0 = NaN" by (simp add: true_divide_def)
qed

text \<open>
  The theorem at \<open>table_ex\<close> and \<open>meta_ex\<close>: the sample rows hold \<open>2/3\<close> over the
  denominator 3 and NaN over the denominator 0, the feature rows hold 1 and 0 over 1.
\<close>

theorem peds_measure_range_witness:
  "rectangular table_ex
   \<and> sample_peds table_ex meta_ex ''time'' ''donor'' ''subject'' False False = Inr sample_out_ex
   \<and> feature_peds table_ex meta_ex ''time'' ''donor'' ''subject'' False = Inr feature_out_ex
   \<and> valid_measure (Num (2 / 3)) (Num 3) \<and> valid_measure NaN (Num 0)
   \<and> valid_measure (Num 1) (Num 1) \<and> valid_measure (Num 0) (Num 1)"
proof -
  have rect: "rectangular table_ex" by (simp add: rectangular_def table_ex_def)
  from peds_measure_range [OF rect, of meta_ex "''time''" "''donor''" "''subject''" False False
      sample_out_ex feature_out_ex]
  have "(\<forall>r \<in> set (peds_rows sample_out_ex). valid_measure (r ! 1) (r ! 3))
      \<and> (\<forall>r \<in> set (peds_rows feature_out_ex). valid_measure (r ! 1) (r ! 3))"
    using sample_peds_ex feature_peds_ex by blast
  then have "valid_measure (Num (2 / 3)) (Num 3) \<and> valid_measure NaN (Num 0)
      \<and> valid_measure (Num 1) (Num 1) \<and> valid_measure (Num 0) (Num 1)"
    by (simp add: sample_out_ex_def feature_out_ex_def)
  with rect sample_peds_ex feature_peds_ex show ?thesis by blast
qed

text \<open>
  C6. No row of a result of \<open>feature_peds\<close> has a missing measure. A result of
  \<open>sample_peds\<close> has one row for every recipient row of the table, in the order of the
  table, whatever its measure: for the metadata and the reference series that the
  validation steps produce, the first column of the result lists the index of the
  recipient table.
\<close>

theorem nan_rows_dropped_or_kept:
  "(feature_peds t md tc rc sc fmr = Inr feature_out \<longrightarrow>
      (\<forall>r \<in> set (peds_rows feature_out). \<not> isna (r ! 1)))
   \<and> (sample_resolution t md tc rc sc fmr dis = Inr (metadata, used)
      \<and> sample_peds t md tc rc sc fmr dis = Inr sample_out \<longrightarrow>
        map hd (peds_rows sample_out) =
          map Str (index (create_recipient_table used metadata (positive t))))"
proof (intro conjI impI)
  assume "feature_peds t md tc rc sc fmr = Inr feature_out"
  then have "\<forall>r \<in> set (peds_rows feature_out). length r = 6 \<and> \<not> list_ex isna r"
    by (rule feature_peds_invariant) (rule compute_peds_Feature_no_nan)
  then show "\<forall>r \<in> set (peds_rows feature_out). \<not> isna (r ! 1)"
    by (auto simp: list_ex_iff)
next
  assume "sample_resolution t md tc rc sc fmr dis = Inr (metadata, used)
      \<and> sample_peds t md tc rc sc fmr dis = Inr sample_out"
  then have "compute_peds sample_table ''Sample'' NaN used t metadata tc sc rc = Inr sample_out"
    unfolding sample_peds_resolution by auto
  from sample_rows_ids [OF this]
  show "map hd (peds_rows sample_out) =
          map Str (index (create_recipient_table used metadata (positive t)))"
    by (simp add: sample_table_def)
qed

text \<open>
  The theorem at \<open>table_ex\<close> and \<open>meta_ex\<close>: feature \<open>f4\<close>, which no donor has, is
  absent from the feature result, while recipient \<open>B\<close>, whose donor has no feature,
  keeps its row with the measure NaN in the sample result.
\<close>

theorem nan_rows_dropped_or_kept_witness:
  "feature_peds table_ex meta_ex ''time'' ''donor'' ''subject'' False = Inr feature_out_ex
   \<and> map hd (peds_rows feature_out_ex) = [Str ''f1'', Str ''f2'', Str ''f3'']
   \<and> sample_peds table_ex meta_ex ''time'' ''donor'' ''subject'' False False = Inr sample_out_ex
   \<and> map hd (peds_rows sample_out_ex) =
       map Str (index (create_recipient_table [(''A'', Str ''D''), (''B'', Str ''E'')]
                         (to_dataframe meta_ex) (positive table_ex)))
   \<and> peds_rows sample_out_ex ! 1 = [Str ''B'', NaN, Num 0, Num 0, Str ''E'', Str ''S2'', Num 1]"
proof -
  from nan_rows_dropped_or_kept [of table_ex meta_ex "''time''" "''donor''" "''subject''" False
      feature_out_ex False "to_dataframe meta_ex" "[(''A'', Str ''D''), (''B'', Str ''E'')]"
      sample_out_ex]
  have "map hd (peds_rows sample_out_ex) =
       map Str (index (create_recipient_table [(''A'', Str ''D''), (''B'', Str ''E'')]
                         (to_dataframe meta_ex) (positive table_ex)))"
    using sample_peds_ex sample_resolution_ex by blast
  moreover have "map hd (peds_rows feature_out_ex) = [Str ''f1'', Str ''f2'', Str ''f3'']"
    by (simp add: feature_out_ex_def)
  moreover have "peds_rows sample_out_ex ! 1 =
      [Str ''B'', NaN, Num 0, Num 0, Str ''E'', Str ''S2'', Num 1]"
    by (simp add: sample_out_ex_def)
  ultimately show ?thesis using sample_peds_ex feature_peds_ex by blast
qed

section \<open>Metadata rows of samples that the table does not have\<close>

lemma in_filtered_rows:
  "i \<in> set ids \<Longrightarrow>
     i \<in> fst ` set (filter (\<lambda>(i, cs). i \<in> set ids) rs) \<longleftrightarrow> i \<in> fst ` set rs"
  by force

lemma filter_ids_filtered:
  "filter_ids md ids =
     (if ids = [] then Inl (FilterIdsError [])
      else if \<not> distinct ids
        then Inl (FilterIdsError (filter (\<lambda>i. 1 < count_list ids i) (unique ids)))
      else if \<not> set ids \<subseteq> fst ` set (filter (\<lambda>(i, cs). i \<in> set ids) (md_rows md))
        then Inl (FilterIdsError
               (filter (\<lambda>i. i \<notin> fst ` set (filter (\<lambda>(i, cs). i \<in> set ids) (md_rows md))) ids))
      else Inr \<lparr>id_header = id_header md, column_properties = column_properties md,
                md_rows = filter (\<lambda>(i, cs). i \<in> set ids) (md_rows md)\<rparr>)"
proof -
  have sub: "set ids \<subseteq> fst ` set (filter (\<lambda>(i, cs). i \<in> set ids) (md_rows md)) \<longleftrightarrow>
             set ids \<subseteq> fst ` set (md_rows md)"
    using in_filtered_rows [of _ ids "md_rows md"] by blast
  have flt: "filter (\<lambda>i. i \<notin> fst ` set (filter (\<lambda>(i, cs). i \<in> set ids) (md_rows md))) ids =
             filter (\<lambda>i. i \<notin> fst ` set (md_rows md)) ids"
    by (rule filter_cong) (simp_all only: in_filtered_rows)
  show ?thesis
    unfolding sub flt by (simp add: filter_ids_def)
qed

lemma filter_ids_cong:
  assumes "id_header md' = id_header md" "column_properties md' = column_properties md"
      and "filter (\<lambda>(i, cs). i \<in> set ids) (md_rows md') =
           filter (\<lambda>(i, cs). i \<in> set ids) (md_rows md)"
  shows "filter_ids md' ids = filter_ids md ids"
  unfolding filter_ids_filtered assms by (rule refl)

lemma sample_rows_in_table:
  assumes "sample_peds t md tc rc sc fmr dis = Inr out" "r \<in> set (peds_rows out)"
  shows "\<exists>i \<in> set (index t). hd r = Str i"
proof -
  from assms(1) obtain metadata used where
    "compute_peds sample_table ''Sample'' NaN used t metadata tc sc rc = Inr out"
    unfolding sample_peds_resolution by (auto simp: and_then_Inr_iff)
  from sample_rows_ids [OF this]
  have "set (map hd (peds_rows out)) =
          set (map Str (index (create_recipient_table used metadata (positive t))))"
    by (simp add: sample_table_def)
  moreover have "hd r \<in> set (map hd (peds_rows out))"
    using assms(2) by simp
  ultimately have "hd r \<in> Str ` set (index (create_recipient_table used metadata (positive t)))"
    by simp
  then show ?thesis
    unfolding create_recipient_table_eq by (force simp: recipient_table_def index_def positive_def)
qed

text \<open>
  C9. Let two metadata objects have the same identifier header and the same columns, and
  the same rows for the samples that are rows of the feature table, in the same order;
  they may differ in any way in their rows for other samples. Then \<open>sample_peds\<close>
  returns the same for both, be it a result or an error, and so does \<open>feature_peds\<close>;
  and every row of a result of \<open>sample_peds\<close> carries the identifier of a row of the
  table.
\<close>

theorem metadata_outside_table_ignored:
  assumes "id_header md' = id_header md" "column_properties md' = column_properties md"
      and "filter (\<lambda>(i, cs). i \<in> set (index t)) (md_rows md') =
           filter (\<lambda>(i, cs). i \<in> set (index t)) (md_rows md)"
  shows "sample_peds t md' tc rc sc fmr dis = sample_peds t md tc rc sc fmr dis
       \<and> feature_peds t md' tc rc sc fmr = feature_peds t md tc rc sc fmr
       \<and> (sample_peds t md tc rc sc fmr dis = Inr out \<longrightarrow>
            (\<forall>r \<in> set (peds_rows out). \<exists>i \<in> set (index t). hd r = Str i))"
  using filter_ids_cong [OF assms] sample_rows_in_table [of t md tc rc sc fmr dis out]
  by (auto simp: sample_peds_def feature_peds_def)

text \<open>
  The theorem at \<open>table_ex\<close>, for \<open>meta_extra\<close> against \<open>meta_ex\<close>: the results are
  those of \<open>meta_ex\<close>; the rows of \<open>Z\<close> and \<open>Y\<close> raise nothing and add nothing.
\<close>

theorem metadata_outside_table_ignored_witness:
  "filter (\<lambda>(i, cs). i \<in> set (index table_ex)) (md_rows meta_extra) = md_rows meta_ex
   \<and> sample_peds table_ex meta_extra ''time'' ''donor'' ''subject'' False False =
       Inr sample_out_ex
   \<and> feature_peds table_ex meta_extra ''time'' ''donor'' ''subject'' False =
       Inr feature_out_ex"
proof -
  have h1: "id_header meta_extra = id_header meta_ex"
    by (simp add: meta_extra_def meta_ex_def)
  have h2: "column_properties meta_extra = column_properties meta_ex"
    by (simp add: meta_extra_def meta_ex_def)
  have f: "filter (\<lambda>(i, cs). i \<in> set (index table_ex)) (md_rows meta_extra) = md_rows meta_ex"
    by (simp add: meta_extra_def meta_ex_def table_ex_def index_def)
  have g: "filter (\<lambda>(i, cs). i \<in> set (index table_ex)) (md_rows meta_ex) = md_rows meta_ex"
    by (simp add: meta_ex_def table_ex_def index_def)
  have h3: "filter (\<lambda>(i, cs). i \<in> set (index table_ex)) (md_rows meta_extra) =
            filter (\<lambda>(i, cs). i \<in> set (index table_ex)) (md_rows meta_ex)"
    using f g by simp
  from metadata_outside_table_ignored [OF h1 h2 h3, of "''time''" "''donor''" "''subject''"
      False False]
  show ?thesis
    using f sample_peds_ex feature_peds_ex by simp
qed

section \<open>The bootstrap test\<close>

text \<open>
  C3 does not hold of the code: for every input, \<open>peds_bootstrap\<close> raises the
  AttributeError of its second statement and returns no pair of statistic and p-value.
\<close>

theorem peds_bootstrap_raises:
  "peds_bootstrap table metadata time_column reference_column subject_column
     filter_missing_references drop_incomplete_subjects bootstrap_replicates =
   Inl (AttributeError ''loc'')"
  by (simp add: peds_bootstrap_def getattr_loc_def)

section \<open>Actions that leave the objects of the caller alone\<close>

lemma frames_seq:
  assumes "frames n m P" and "\<And>x. P x \<Longrightarrow> frames n (f x) Q"
  shows "frames n (seq m f) Q"
  unfolding frames_def
proof (intro allI impI)
  fix s :: store assume n: "n \<le> length s"
  obtain s' r where m: "m s = (s', r)" by (cases "m s")
  from assms(1) [unfolded frames_def, rule_format, OF n] m have s': "take n s' = take n s" "length s \<le> length s'"
    and r: "\<And>x. r = Inr x \<Longrightarrow> P x"
    by simp_all
  show "case seq m f s of (s'', r') \<Rightarrow>
          take n s'' = take n s \<and> length s \<le> length s'' \<and>
          (case r' of Inl e \<Rightarrow> True | Inr x \<Rightarrow> Q x)"
  proof (cases r)
    case (Inl e)
    then show ?thesis using m s' by (simp add: seq_def)
  next
    case (Inr x)
    have "n \<le> length s'" using n s'(2) by simp
    from assms(2) [OF r [OF Inr], unfolded frames_def, rule_format, OF this]
    show ?thesis using m Inr s' by (auto simp: seq_def split: prod.splits)
  qed
qed

lemma frames_weaken: "frames n m P \<Longrightarrow> (\<And>x. P x \<Longrightarrow> Q x) \<Longrightarrow> frames n m Q"
  unfolding frames_def by (fastforce split: prod.splits sum.splits)

lemma frames_call: "frames n (call r) (\<lambda>x. True)"
  by (simp add: frames_def call_def split: sum.splits)

lemma frames_call_value: "P x \<Longrightarrow> frames n (call (Inr x)) P"
  by (simp add: frames_def call_def)

lemma frames_new: "frames n (alloc v) (\<lambda>a. n \<le> a)"
  by (simp add: frames_def alloc_def)

lemma frames_fetch: "frames n (fetch a) (\<lambda>x. True)"
  by (simp add: frames_def fetch_def)

lemma frames_store_at: "n \<le> a \<Longrightarrow> frames n (store_at a v) (\<lambda>x. True)"
  by (simp add: frames_def store_at_def)

lemma frames_fetch_typed:
  "frames n (fetch_table a) (\<lambda>x. True)" "frames n (fetch_binary a) (\<lambda>x. True)"
  "frames n (fetch_meta a) (\<lambda>x. True)" "frames n (fetch_frame a) (\<lambda>x. True)"
  "frames n (fetch_peds a) (\<lambda>x. True)"
  unfolding fetch_table_def fetch_binary_def fetch_meta_def fetch_frame_def fetch_peds_def
  by (rule frames_seq [OF frames_fetch frames_call])+

lemma frames_append_in_place: "n \<le> a \<Longrightarrow> frames n (append_in_place a row) (\<lambda>x. True)"
  unfolding append_in_place_def
  by (rule frames_seq [OF frames_fetch_typed(5)]) (rule frames_store_at)

lemma frames_dropna_copy: "frames n (dropna_copy a) (\<lambda>a'. n \<le> a')"
  unfolding dropna_copy_def
  by (rule frames_seq [OF frames_fetch_typed(5)]) (rule frames_new)

lemma frames_fold_st:
  assumes "\<And>x b. P b \<Longrightarrow> frames n (f x b) P" "P b"
  shows "frames n (fold_st f xs b) P"
  using assms(2)
proof (induction xs arbitrary: b)
  case Nil
  then show ?case by (simp add: frames_call_value)
next
  case (Cons x xs)
  show ?case
    unfolding fold_st.simps
    by (rule frames_seq [OF assms(1) [OF Cons.prems]]) (rule Cons.IH)
qed

lemmas frames_steps =
  frames_fetch_typed [THEN frames_seq] frames_call [THEN frames_seq] frames_new [THEN frames_seq]

lemma frames_true: "frames n m P \<Longrightarrow> frames n m (\<lambda>x. True)"
  by (erule frames_weaken) simp

lemma frames_call_error: "frames n (call (Inl e)) P"
  by (simp add: frames_def call_def)

lemma frames_run_filter_associated_reference:
  "frames n (run_filter_associated_reference rs a tc f rc) (\<lambda>x. True)"
  unfolding run_filter_associated_reference_def Let_def
  by (auto intro!: frames_steps frames_call split: option.split)

lemma frames_run_check_subjects:
  "frames n (run_check_subjects_in_all_timepoints ss k d a sc used) (\<lambda>x. True)"
  unfolding run_check_subjects_in_all_timepoints_def Let_def
  by (auto intro!: frames_steps frames_call split: option.split)

lemma frames_run_compute_peds:
  assumes "n \<le> peds_ref"
  shows "frames n (run_compute_peds peds_ref pt ptime refs table_ref metadata_ref tc sc rc)
           (\<lambda>a. n \<le> a)"
  unfolding run_compute_peds_def Let_def
  apply (intro frames_steps)
  apply (auto intro!: frames_steps frames_fold_st assms frames_call [THEN frames_weaken]
               frames_append_in_place [THEN frames_seq] frames_call_value frames_dropna_copy
               frames_call_error
              split: option.split prod.split)
  done

section \<open>The actions compute what the functions on values compute\<close>

lemma holds_append: "holds s a v \<Longrightarrow> holds (s @ ext) a v"
  by (simp add: holds_def nth_append)

lemma holds_new: "holds (s @ [v]) (length s) v"
  by (simp add: holds_def)

lemma holds_update: "holds s a v \<Longrightarrow> holds (s[a := w]) a w"
  by (simp add: holds_def)

lemma holds_take: "holds s a v \<Longrightarrow> a < n \<Longrightarrow> take n s' = take n s \<Longrightarrow> n \<le> length s' \<Longrightarrow> holds s' a v"
  unfolding holds_def by (metis nth_take order_less_le_trans)

lemma run_fetch:
  "holds s a (Table t) \<Longrightarrow> fetch_table a s = (s, Inr t)"
  "holds s a (Binary b) \<Longrightarrow> fetch_binary a s = (s, Inr b)"
  "holds s a (Meta m) \<Longrightarrow> fetch_meta a s = (s, Inr m)"
  "holds s a (Frame df) \<Longrightarrow> fetch_frame a s = (s, Inr df)"
  "holds s a (Peds p) \<Longrightarrow> fetch_peds a s = (s, Inr p)"
  by (simp_all add: holds_def seq_def fetch_def call_def fetch_table_def fetch_binary_def
        fetch_meta_def fetch_frame_def fetch_peds_def)

lemma run_append_in_place:
  "holds s a (Peds p) \<Longrightarrow> append_in_place a row s = (s[a := Peds (append_row p row)], Inr ())"
  by (simp add: append_in_place_def seq_def run_fetch store_at_def)

lemma run_dropna_copy:
  "holds s a (Peds p) \<Longrightarrow> dropna_copy a s = (s @ [Peds (dropna_rows p)], Inr (length s))"
  by (simp add: dropna_copy_def seq_def run_fetch alloc_def)

lemma outcome_error [simp]: "outcome (s, Inl e) = Inl e"
  by (simp add: outcome_def)

lemma outcome_holds: "holds s a (Peds p) \<Longrightarrow> outcome (s, Inr a) = Inr p"
  by (simp add: outcome_def holds_def)

lemma sample_loop:
  assumes body: "\<And>x s p. holds s a (Peds p) \<Longrightarrow>
             body x a s = (case g x of Inl e \<Rightarrow> (s, Inl e)
                           | Inr row \<Rightarrow> (s[a := Peds (append_row p row)], Inr a))"
      and "holds s a (Peds p)"
  shows "case fold_st body xs a s of
           (s', Inl e) \<Rightarrow> for_each g xs = Inl e
         | (s', Inr a') \<Rightarrow> \<exists>rows. for_each g xs = Inr rows \<and> a' = a \<and>
                              holds s' a (Peds (foldl append_row p rows))"
  using assms(2)
proof (induction xs arbitrary: s p)
  case Nil
  then show ?case by (simp add: call_def)
next
  case (Cons x xs)
  show ?case
  proof (cases "g x")
    case (Inl e)
    then show ?thesis using body [OF Cons.prems, of x] by (simp add: seq_def)
  next
    case (Inr row)
    have h: "holds (s[a := Peds (append_row p row)]) a (Peds (append_row p row))"
      using Cons.prems by (rule holds_update)
    from Cons.IH [OF h] show ?thesis
      using Inr body [OF Cons.prems, of x]
      by (auto simp: seq_def split: sum.splits prod.splits)
  qed
qed

lemma feature_loop:
  assumes body: "\<And>x s p a. holds s a (Peds p) \<Longrightarrow>
             body x a s = (s[a := Peds (append_row p (row x))]
                             @ [Peds (dropna_rows (append_row p (row x)))], Inr (length s))"
      and "holds s a (Peds p)" "n \<le> a"
  shows "\<exists>s' a'. fold_st body xs a s = (s', Inr a')
           \<and> holds s' a' (Peds (foldl (\<lambda>pd x. dropna_rows (append_row pd (row x))) p xs))
           \<and> n \<le> a' \<and> take n s' = take n s \<and> length s \<le> length s'"
  using assms(2,3)
proof (induction xs arbitrary: s p a)
  case Nil
  then show ?case by (simp add: call_def)
next
  case (Cons x xs)
  let ?s1 = "s[a := Peds (append_row p (row x))]"
  let ?p1 = "dropna_rows (append_row p (row x))"
  have h2: "holds (?s1 @ [Peds ?p1]) (length s) (Peds ?p1)"
    using holds_new [of ?s1 "Peds ?p1"] by simp
  have n: "n \<le> length s" using Cons.prems by (simp add: holds_def)
  from Cons.IH [OF h2 n] obtain s' a' where
    run: "fold_st body xs (length s) (?s1 @ [Peds ?p1]) = (s', Inr a')" and
    res: "holds s' a' (Peds (foldl (\<lambda>pd x. dropna_rows (append_row pd (row x))) ?p1 xs))"
         "n \<le> a'" "take n s' = take n (?s1 @ [Peds ?p1])" "length (?s1 @ [Peds ?p1]) \<le> length s'"
    by blast
  have "take n (?s1 @ [Peds ?p1]) = take n s"
    using Cons.prems(2) n by (simp add: take_update_cancel)
  with run res show ?case
    using body [OF Cons.prems(1), of x] by (simp add: seq_def)
qed

lemma seq_ok: "m s = (s', Inr x) \<Longrightarrow> seq m f s = f x s'"
  by (simp add: seq_def)

lemma seq_err: "m s = (s', Inl e) \<Longrightarrow> seq m f s = (s', Inl e)"
  by (simp add: seq_def)

lemma seq_call_Inl: "seq (call (Inl e)) f s = (s, Inl e)"
  by (simp add: seq_def call_def)

lemma seq_call_Inr: "seq (call (Inr x)) f s = f x s"
  by (simp add: seq_def call_def)

lemma run_compute_peds_spec:
  assumes p: "holds s peds_ref (Peds p)" and t: "holds s table_ref (Table t)"
      and m: "holds s metadata_ref (Frame md)"
  shows "case run_compute_peds peds_ref pt ptime refs table_ref metadata_ref tc sc rc s of
           (s', Inl e) \<Rightarrow> compute_peds p pt ptime refs t md tc sc rc = Inl e
         | (s', Inr a') \<Rightarrow> \<exists>p'. compute_peds p pt ptime refs t md tc sc rc = Inr p' \<and>
                              holds s' a' (Peds p')"
proof -
  let ?s1 = "s @ [Binary (positive t)]"
  have f1: "fetch_table table_ref s = (s, Inr t)" using t by (rule run_fetch)
  have f2: "alloc (Binary (positive t)) s = (?s1, Inr (length s))" by (simp add: alloc_def)
  have f3: "fetch_binary (length s) ?s1 = (?s1, Inr (positive t))"
    by (rule run_fetch) (rule holds_new)
  have f4: "fetch_frame metadata_ref ?s1 = (?s1, Inr md)"
    by (rule run_fetch) (rule holds_append [OF m])
  have p1: "holds ?s1 peds_ref (Peds p)" by (rule holds_append [OF p])
  note k1 = seq_ok [where m = "fetch_table table_ref" and s = s, OF f1]
  note k2 = seq_ok [where m = "alloc (Binary (positive t))" and s = s, OF f2]
  note k3 = seq_ok [where m = "fetch_binary (length s)" and s = "?s1", OF f3]
  note k4 = seq_ok [where m = "fetch_frame metadata_ref" and s = "?s1", OF f4]
  let ?donor = "(positive t)\<lparr>rows := boolean_index (rows (positive t))
                          (isin (map Str (index (positive t))) (map snd refs))\<rparr>"
  let ?recip = "create_recipient_table refs md (positive t)"
  show ?thesis
  proof (cases "list_all id (isin (map snd refs) (map Str (index (positive t))))")
    case False
    then show ?thesis
      unfolding run_compute_peds_def compute_peds_def
      by (simp add: k1 k2 k3 Let_def call_def)
  next
    case True
    show ?thesis
    proof (cases "create_masking md ?donor ?recip rc")
      case (Inl e)
      then have c: "call (create_masking md ?donor ?recip rc) ?s1 = (?s1, Inl e)"
        by (simp add: call_def)
      show ?thesis
        unfolding run_compute_peds_def compute_peds_def
        using True Inl
        by (simp add: k1 k2 k3 k4
              seq_call_Inl [where s = "?s1"] Let_def)
    next
      case (Inr dm)
      then have c: "call (create_masking md ?donor ?recip rc) ?s1 = (?s1, Inr dm)"
        by (simp add: call_def)
      consider (sample) "pt = ''Sample''" | (feature) "pt \<noteq> ''Sample''" "pt = ''Feature''"
        | (other) "pt \<noteq> ''Sample''" "pt \<noteq> ''Feature''" by blast
      then show ?thesis
      proof cases
        case other
        then show ?thesis
          unfolding run_compute_peds_def compute_peds_def
          using True Inr
          by (simp add: k1 k2 k3 k4
                seq_call_Inr [where s = "?s1"] Let_def call_def)
      next
        case sample
        define g where "g = (\<lambda>(count, sample).
             case (loc md sample rc, loc md sample sc, loc md sample tc) of
               (Some ref, Some subj, Some tp) \<Rightarrow>
                 Inr [Str sample,
                      true_divide (sum_axis1 (map snd (rows (mask_recipient dm ?recip))) ! count)
                                  (sum_axis1 dm ! count),
                      Num (of_int (sum_axis1 (map snd (rows (mask_recipient dm ?recip))) ! count)),
                      Num (of_int (sum_axis1 dm ! count)),
                      ref, subj, tp]
             | other \<Rightarrow> Inl (LookupKeyError sample))"
        define body where "body = (\<lambda>(count, sample) peds_ref.
             seq (call
               (case (loc md sample rc, loc md sample sc, loc md sample tc) of
                  (Some ref, Some subj, Some tp) \<Rightarrow>
                    Inr [Str sample,
                         true_divide (sum_axis1 (map snd (rows (mask_recipient dm ?recip))) ! count)
                                     (sum_axis1 dm ! count),
                         Num (of_int (sum_axis1 (map snd (rows (mask_recipient dm ?recip))) ! count)),
                         Num (of_int (sum_axis1 dm ! count)),
                         ref, subj, tp]
                | other \<Rightarrow> Inl (LookupKeyError sample)))
               (\<lambda>row. seq (append_in_place peds_ref row) (\<lambda>_. call (Inr peds_ref))))"
        have run: "run_compute_peds peds_ref pt ptime refs table_ref metadata_ref tc sc rc s =
                     fold_st body (enumerate 0 (index ?recip)) peds_ref ?s1"
          unfolding run_compute_peds_def body_def
          using True sample Inr
          by (simp add: k1 k2 k3 k4 seq_call_Inr [where s = "?s1"] Let_def)
        have pure: "compute_peds p pt ptime refs t md tc sc rc =
                      and_then (for_each g (enumerate 0 (index ?recip)))
                        (\<lambda>rows. Inr (foldl append_row p rows))"
          unfolding compute_peds_def g_def using True sample Inr
          by (simp add: Let_def)
        have b: "body x peds_ref s' =
                   (case g x of Inl e \<Rightarrow> (s', Inl e)
                    | Inr row \<Rightarrow> (s'[peds_ref := Peds (append_row p' row)], Inr peds_ref))"
          if "holds s' peds_ref (Peds p')" for x s' p'
          unfolding body_def g_def
          by (cases x) (simp add: seq_def call_def run_append_in_place [OF that] split: sum.splits)
        from sample_loop [of peds_ref body g, OF b p1, of "enumerate 0 (index ?recip)"]
        show ?thesis
          unfolding run pure by (auto split: sum.splits prod.splits)
      next
        case feature
        define row where "row = (\<lambda>(count :: nat, feature).
             [Str feature,
              true_divide (sum_axis0 (length (columns ?recip))
                             (map snd (rows (mask_recipient dm ?recip))) ! count)
                          (sum_axis0 (length (columns ?donor)) dm ! count),
              Num (of_int (sum_axis0 (length (columns ?recip))
                             (map snd (rows (mask_recipient dm ?recip))) ! count)),
              Num (of_int (sum_axis0 (length (columns ?donor)) dm ! count)),
              ptime, Str feature])"
        define body where "body = (\<lambda>(count :: nat, feature) peds_ref.
             seq (append_in_place peds_ref
               [Str feature,
                true_divide (sum_axis0 (length (columns ?recip))
                               (map snd (rows (mask_recipient dm ?recip))) ! count)
                            (sum_axis0 (length (columns ?donor)) dm ! count),
                Num (of_int (sum_axis0 (length (columns ?recip))
                               (map snd (rows (mask_recipient dm ?recip))) ! count)),
                Num (of_int (sum_axis0 (length (columns ?donor)) dm ! count)),
                ptime, Str feature]) (\<lambda>_. dropna_copy peds_ref))"
        have body_row: "body x a = seq (append_in_place a (row x)) (\<lambda>_. dropna_copy a)" for x a
          unfolding body_def row_def by (cases x) simp
        have run: "run_compute_peds peds_ref pt ptime refs table_ref metadata_ref tc sc rc s =
                     fold_st body (enumerate 0 (columns ?recip)) peds_ref ?s1"
          unfolding run_compute_peds_def body_def
          using True feature Inr
          by (simp add: k1 k2 k3 k4 seq_call_Inr [where s = "?s1"] Let_def)
        have pure: "compute_peds p pt ptime refs t md tc sc rc =
                      Inr (foldl (\<lambda>pd x. dropna_rows (append_row pd (row x))) p
                             (enumerate 0 (columns ?recip)))"
          unfolding compute_peds_def row_def using True feature Inr
          by (simp add: Let_def split_def)
        have b: "body x a s' =
                   (s'[a := Peds (append_row p' (row x))]
                      @ [Peds (dropna_rows (append_row p' (row x)))], Inr (length s'))"
          if h: "holds s' a (Peds p')" for x s' p' a
        proof -
          have "append_in_place a (row x) s' = (s'[a := Peds (append_row p' (row x))], Inr ())"
            by (rule run_append_in_place [OF h])
          moreover have "dropna_copy a (s'[a := Peds (append_row p' (row x))]) =
              (s'[a := Peds (append_row p' (row x))] @ [Peds (dropna_rows (append_row p' (row x)))],
               Inr (length s'))"
            using run_dropna_copy [OF holds_update [OF h]] by simp
          ultimately show ?thesis
            unfolding body_row by (simp add: seq_def)
        qed
        from feature_loop [of body row, OF b p1 le0, of "enumerate 0 (columns ?recip)"]
        show ?thesis
          unfolding run pure by auto
      qed
    qed
  qed
qed

lemma refines_call:
  assumes "\<And>x. r = Inr x \<Longrightarrow> refines s (f x) (g x)"
  shows "refines s (seq (call r) f) (and_then r g)"
  using assms by (cases r) (simp_all add: refines_def seq_call_Inl seq_call_Inr)

lemma refines_call_error: "refines s (call (Inl e)) (Inl e)"
  by (simp add: refines_def call_def)

lemma refines_new:
  assumes "refines (s @ [v]) (f (length s)) r"
  shows "refines s (seq (alloc v) f) r"
  using assms by (simp add: refines_def seq_def alloc_def)

lemma refines_fetch:
  "holds s a (Table t) \<Longrightarrow> refines s (f1 t) r \<Longrightarrow> refines s (seq (fetch_table a) f1) r"
  "holds s a (Meta md) \<Longrightarrow> refines s (f3 md) r \<Longrightarrow> refines s (seq (fetch_meta a) f3) r"
  "holds s a (Frame df) \<Longrightarrow> refines s (f4 df) r \<Longrightarrow> refines s (seq (fetch_frame a) f4) r"
  by (simp_all add: refines_def seq_def run_fetch)

lemma seq_new_eq: "seq (alloc v) f s = f (length s) (s @ [v])"
  by (simp add: seq_def alloc_def)

lemma run_filter_associated_reference_spec:
  assumes "holds s a (Frame md)"
  shows "case run_filter_associated_reference rs a tc fl rc s of
           (s', Inl e) \<Rightarrow> filter_associated_reference rs md tc fl rc = Inl e
         | (s', Inr (a', used)) \<Rightarrow>
             \<exists>md' ext. filter_associated_reference rs md tc fl rc = Inr (md', used) \<and>
                       s' = s @ ext \<and> holds s' a' (Frame md')"
proof -
  note k = seq_ok [where m = "fetch_frame a" and s = s, OF run_fetch(4) [OF assms]]
  have h: "holds (s @ [Frame md']) (length s) (Frame md')" for md'
    by (rule holds_new)
  show ?thesis
    unfolding run_filter_associated_reference_def filter_associated_reference_def k
    using assms h
    by (auto simp: Let_def call_def seq_new_eq split: option.splits)
qed


lemma refines_filter_associated_reference:
  assumes "holds s a (Frame md)"
      and "\<And>ext a' md' used. filter_associated_reference rs md tc fl rc = Inr (md', used)
             \<Longrightarrow> holds (s @ ext) a' (Frame md')
             \<Longrightarrow> refines (s @ ext) (f (a', used)) (g (md', used))"
  shows "refines s (seq (run_filter_associated_reference rs a tc fl rc) f)
           (and_then (filter_associated_reference rs md tc fl rc) g)"
proof -
  obtain s' r where run: "run_filter_associated_reference rs a tc fl rc s = (s', r)"
    by (cases "run_filter_associated_reference rs a tc fl rc s")
  show ?thesis
  proof (cases r)
    case (Inl e)
    with run run_filter_associated_reference_spec [OF assms(1), of rs tc fl rc]
    show ?thesis by (simp add: refines_def seq_def)
  next
    case (Inr x)
    obtain a' used where x: "x = (a', used)" by (cases x)
    from run Inr x run_filter_associated_reference_spec [OF assms(1), of rs tc fl rc]
    obtain md' ext where
      "filter_associated_reference rs md tc fl rc = Inr (md', used)" "s' = s @ ext"
      "holds s' a' (Frame md')"
      by auto
    with assms(2) [of md' used ext a'] run Inr x show ?thesis
      by (simp add: refines_def seq_def)
  qed
qed



lemmas holds_intros = holds_new holds_append


lemma frames_run_sample_peds:
  "frames n (run_sample_peds table_ref metadata_ref tc rc sc fmr dis) (\<lambda>a. n \<le> a)"
  unfolding run_sample_peds_def Let_def
  by (auto intro!: frames_steps frames_run_filter_associated_reference [THEN frames_seq]
        frames_run_check_subjects [THEN frames_seq] frames_run_compute_peds
      split: prod.split)

lemma frames_run_feature_peds:
  "frames n (run_feature_peds table_ref metadata_ref tc rc sc fmr) (\<lambda>a. n \<le> a)"
  unfolding run_feature_peds_def Let_def
  by (auto intro!: frames_steps frames_run_filter_associated_reference [THEN frames_seq]
        frames_run_check_subjects [THEN frames_seq] frames_run_compute_peds
        frames_fold_st frames_call_error
      split: prod.split option.split)

lemma frames_prefix:
  assumes "frames (length s) m P"
  shows "take (length s) (fst (m s)) = s" "length s \<le> length (fst (m s))"
  using assms [unfolded frames_def, rule_format, of s]
  by (auto split: prod.splits)

lemma frames_holds:
  assumes "frames (length s) m P" "holds s a v"
  shows "holds (fst (m s)) a v"
  using frames_prefix [OF assms(1)] assms(2)
  unfolding holds_def by (metis nth_take order_less_le_trans)

lemma groups_loop:
  assumes body: "\<And>time tm a s. body (time, tm) a s =
             run_compute_peds a ''Feature'' time refs table_ref (length s) tc sc rc
               (s @ [Frame tm])"
      and "holds s a (Peds p)" "holds s table_ref (Table t)" "table_ref < a"
  shows "case fold_st body groups a s of
           (s', Inl e) \<Rightarrow>
             for_update (\<lambda>(time, time_metadata) peds_df.
                  compute_peds peds_df ''Feature'' time refs t time_metadata tc sc rc)
               groups p = Inl e
         | (s', Inr a') \<Rightarrow>
             \<exists>p'. for_update (\<lambda>(time, time_metadata) peds_df.
                       compute_peds peds_df ''Feature'' time refs t time_metadata tc sc rc)
                     groups p = Inr p' \<and> holds s' a' (Peds p')"
  using assms(2-)
proof (induction groups arbitrary: s a p)
  case Nil
  then show ?case by (simp add: call_def)
next
  case (Cons g groups)
  obtain time tm where g: "g = (time, tm)" by (cases g)
  let ?s1 = "s @ [Frame tm]"
  let ?run = "run_compute_peds a ''Feature'' time refs table_ref (length s) tc sc rc"
  have h: "holds ?s1 a (Peds p)" "holds ?s1 table_ref (Table t)" "holds ?s1 (length s) (Frame tm)"
    using Cons.prems by (auto intro: holds_append holds_new)
  obtain s' r where run: "?run ?s1 = (s', r)" by (cases "?run ?s1")
  have step: "fold_st body (g # groups) a s =
                (case r of Inl e \<Rightarrow> (s', Inl e) | Inr a' \<Rightarrow> fold_st body groups a' s')"
    unfolding g fold_st.simps seq_def body run by simp
  show ?case
  proof (cases r)
    case (Inl e)
    with run run_compute_peds_spec [OF h(1,2,3), of "''Feature''" time refs tc sc rc]
    show ?thesis unfolding step by (simp add: g)
  next
    case (Inr a')
    with run run_compute_peds_spec [OF h(1,2,3), of "''Feature''" time refs tc sc rc]
    obtain p' where p': "compute_peds p ''Feature'' time refs t tm tc sc rc = Inr p'"
      "holds s' a' (Peds p')" by auto
    have fr: "frames (Suc table_ref) ?run (\<lambda>a. Suc table_ref \<le> a)"
      by (rule frames_run_compute_peds) (use Cons.prems(3) in simp)
    have n: "Suc table_ref \<le> length ?s1" using h(2) by (simp add: holds_def)
    from fr [unfolded frames_def, rule_format, OF n] run Inr
    have keep: "take (Suc table_ref) s' = take (Suc table_ref) ?s1" "length ?s1 \<le> length s'"
      "Suc table_ref \<le> a'" by auto
    have t': "holds s' table_ref (Table t)"
      using keep(1,2) n by (intro holds_take [OF h(2), of "Suc table_ref"]) auto
    from Cons.IH [OF p'(2) t'] keep(3) show ?thesis
      unfolding step using Inr p'(1) by (auto simp: g split: prod.splits sum.splits)
  qed
qed

lemma run_feature_peds_refines:
  assumes "holds s table_ref (Table t)" "holds s metadata_ref (Meta md)"
  shows "outcome (run_feature_peds table_ref metadata_ref tc rc sc fmr s) =
           feature_peds t md tc rc sc fmr"
proof -
  have loop: "refines s' (case groupby df tc of
             None \<Rightarrow> call (Inl (LookupKeyError tc))
           | Some groups \<Rightarrow>
               fold_st
                 (\<lambda>(time, time_metadata) peds_ref.
                    seq (alloc (Frame time_metadata)) (\<lambda>time_metadata_ref.
                    run_compute_peds peds_ref ''Feature'' time refs table_ref
                      time_metadata_ref tc sc rc))
                 groups a)
          (case groupby df tc of
                 None \<Rightarrow> Inl (LookupKeyError tc)
               | Some groups \<Rightarrow>
                   for_update
                     (\<lambda>(time, time_metadata) peds_df.
                        compute_peds peds_df ''Feature'' time refs t
                          time_metadata tc sc rc)
                     groups p)"
    if "holds s' a (Peds p)" "holds s' table_ref (Table t)" "table_ref < a" for s' a p df refs
  proof (cases "groupby df tc")
    case None
    then show ?thesis by (simp add: refines_call_error)
  next
    case (Some groups)
    obtain s'' r where run: "fold_st
                 (\<lambda>(time, time_metadata) peds_ref.
                    seq (alloc (Frame time_metadata)) (\<lambda>time_metadata_ref.
                    run_compute_peds peds_ref ''Feature'' time refs table_ref
                      time_metadata_ref tc sc rc))
                 groups a s' = (s'', r)"
      by (cases "fold_st
                 (\<lambda>(time, time_metadata) peds_ref.
                    seq (alloc (Frame time_metadata)) (\<lambda>time_metadata_ref.
                    run_compute_peds peds_ref ''Feature'' time refs table_ref
                      time_metadata_ref tc sc rc))
                 groups a s'")
    have bd: "(case (time, tm) of (time, time_metadata) \<Rightarrow> \<lambda>peds_ref.
                    seq (alloc (Frame time_metadata)) (\<lambda>time_metadata_ref.
                    run_compute_peds peds_ref ''Feature'' time refs table_ref
                      time_metadata_ref tc sc rc)) b s0 =
             run_compute_peds b ''Feature'' time refs table_ref (length s0) tc sc rc
               (s0 @ [Frame tm])" for time tm b s0
      by (simp add: seq_new_eq)
    from groups_loop [where body = "\<lambda>(time, time_metadata) peds_ref.
                    seq (alloc (Frame time_metadata)) (\<lambda>time_metadata_ref.
                    run_compute_peds peds_ref ''Feature'' time refs table_ref
                      time_metadata_ref tc sc rc)", OF bd that, of groups] run
    show ?thesis
      unfolding Some by (cases r) (auto simp: refines_def outcome_holds)
  qed
  have lt: "table_ref < length s" using assms(1) by (simp add: holds_def)
  have "refines s (run_feature_peds table_ref metadata_ref tc rc sc fmr)
          (feature_peds t md tc rc sc fmr)"
    unfolding run_feature_peds_def feature_peds_def
    apply (rule refines_fetch(1) [OF assms(1)])
    apply (simp only: Let_def)
    apply (rule refines_fetch(2) [OF assms(2)])
    apply (rule refines_call)
    apply (rule refines_new)
    apply (rule refines_fetch(2), rule holds_new)
    apply (rule refines_new)
    apply (rule refines_fetch(3), rule holds_new)
    apply (rule refines_call)+
    apply (rule refines_filter_associated_reference, rule holds_new)
    apply (simp only: prod.case)
    apply (rule refines_fetch(3), assumption)
    apply (rule refines_call)+
    apply (rule refines_new)
    apply (rule loop)
      apply (rule holds_new)
     apply (intro holds_append assms(1))
    apply (use lt in simp)
    done
  then show ?thesis by (simp add: refines_def)
qed

section \<open>Inputs unchanged, results determined\<close>

text \<open>
  C8. Let the store hold the feature table and the metadata at the references that the
  caller passes. Whether \<open>sample_peds\<close> returns or raises, the store it leaves begins
  with the store it was given: every object that existed before the call is unchanged, so
  the two references still hold the same table and the same metadata. The same holds of
  \<open>feature_peds\<close>. The only objects written in place are result tables that the call
  itself created.
\<close>

theorem inputs_unchanged:
  assumes "holds s table_ref (Table t)" "holds s metadata_ref (Meta md)"
  shows "take (length s) (fst (run_sample_peds table_ref metadata_ref tc rc sc fmr dis s)) = s
       \<and> holds (fst (run_sample_peds table_ref metadata_ref tc rc sc fmr dis s)) table_ref (Table t)
       \<and> holds (fst (run_sample_peds table_ref metadata_ref tc rc sc fmr dis s)) metadata_ref (Meta md)
       \<and> take (length s) (fst (run_feature_peds table_ref metadata_ref tc rc sc fmr s)) = s
       \<and> holds (fst (run_feature_peds table_ref metadata_ref tc rc sc fmr s)) table_ref (Table t)
       \<and> holds (fst (run_feature_peds table_ref metadata_ref tc rc sc fmr s)) metadata_ref (Meta md)"
proof -
  have a: "frames (length s) (run_sample_peds table_ref metadata_ref tc rc sc fmr dis)
             (\<lambda>a. length s \<le> a)"
    by (rule frames_run_sample_peds)
  have b: "frames (length s) (run_feature_peds table_ref metadata_ref tc rc sc fmr)
             (\<lambda>a. length s \<le> a)"
    by (rule frames_run_feature_peds)
  from frames_prefix(1) [OF a] frames_prefix(1) [OF b]
    frames_holds [OF a assms(1)] frames_holds [OF a assms(2)]
    frames_holds [OF b assms(1)] frames_holds [OF b assms(2)]
  show ?thesis by simp
qed

text \<open>
  The theorem at a store of two objects, \<open>table_ex\<close> and \<open>meta_ex\<close>: the call returns
  the reference 4 of a new object, and the first two objects are as before.
\<close>

theorem inputs_unchanged_witness:
  "snd (run_sample_peds 0 1 ''time'' ''donor'' ''subject'' False False
          [Table table_ex, Meta meta_ex]) = Inr 4
   \<and> take 2 (fst (run_sample_peds 0 1 ''time'' ''donor'' ''subject'' False False
                   [Table table_ex, Meta meta_ex])) = [Table table_ex, Meta meta_ex]
   \<and> take 2 (fst (run_feature_peds 0 1 ''time'' ''donor'' ''subject'' False
                   [Table table_ex, Meta meta_ex])) = [Table table_ex, Meta meta_ex]"
proof -
  have t: "holds [Table table_ex, Meta meta_ex] 0 (Table table_ex)" by (simp add: holds_def)
  have m: "holds [Table table_ex, Meta meta_ex] 1 (Meta meta_ex)" by (simp add: holds_def)
  have r: "snd (run_sample_peds 0 1 ''time'' ''donor'' ''subject'' False False
          [Table table_ex, Meta meta_ex]) = Inr 4"
    by code_simp
  from inputs_unchanged [OF t m, of "''time''" "''donor''" "''subject''" False False] r
  show ?thesis by (simp add: numeral_2_eq_2)
qed


lemma value_counts_by_id: "value_counts_by (\<lambda>xs. xs) = value_counts"
  by (rule ext) (simp add: value_counts_by_def value_counts_def)

lemma run_check_subjects_by_id:
  "run_check_subjects_in_all_timepoints_by (\<lambda>xs. xs) = run_check_subjects_in_all_timepoints"
  by (intro ext)
    (simp only: run_check_subjects_in_all_timepoints_by_def
       run_check_subjects_in_all_timepoints_def value_counts_by_id)

text \<open>With equal counts in the order of first appearance, the run is \<open>run_sample_peds\<close>.\<close>

lemma run_sample_peds_by_id: "run_sample_peds_by (\<lambda>xs. xs) = run_sample_peds"
  by (intro ext)
    (simp only: run_sample_peds_by_def run_sample_peds_def run_check_subjects_by_id)

lemma similar_refl [simp]: "similar p p"
  by (simp add: similar_def same_but_order_def)













end
